theory Spec2Isabelle
  imports Main "HOL-Library.Multiset" "HOL-Library.Product_Lexorder"
begin

unbundle bit_operations_syntax

section \<open>Accredis backend (src/backend/server.py): data model\<close>

text \<open>
  The handlers of \<^verbatim>\<open>server.py\<close> are embedded as functions that take the store and return
  an outcome together with the store after the call. Everything a handler obtains from
  outside the repository is an argument: the authenticated user that FastAPI injects
  (\<^verbatim>\<open>current_user\<close>), the identifiers \<^verbatim>\<open>uuid.uuid4()\<close> draws, each reading of
  \<^verbatim>\<open>datetime.utcnow()\<close> (one argument per call site, in source order), and the
  answer of the language model.
\<close>

subsection \<open>Exceptions\<close>

text \<open>
  \<^verbatim>\<open>HTTPException(status_code, detail)\<close> as the handlers raise it;
  \<^verbatim>\<open>RequestValidationError\<close> is what FastAPI answers (HTTP 422) when a request body
  violates its pydantic model; \<^verbatim>\<open>LlmError\<close> stands for any exception the
  \<^verbatim>\<open>LlmChat\<close> client raises.
\<close>

datatype exception =
    HTTPException int string
  | RequestValidationError
  | LlmError

subsection \<open>Timestamps\<close>

text \<open>
  A naive \<^verbatim>\<open>datetime\<close>: (year, month, day, hour, minute, second, microsecond).
  Python compares naive datetimes field by field in this order, which is the lexicographic
  order of the tuple.
\<close>

type_synonym datetime = "nat \<times> nat \<times> nat \<times> nat \<times> nat \<times> nat \<times> nat"

definition digit :: "nat \<Rightarrow> char" where
  "digit n = ''0123456789'' ! (n mod 10)"

text \<open>\<^verbatim>\<open>"%0wd" % n\<close>: the last \<open>w\<close> decimal digits of \<open>n\<close>, zero padded.\<close>

fun zpad :: "nat \<Rightarrow> nat \<Rightarrow> string" where
  "zpad 0 n = []"
| "zpad (Suc w) n = zpad w (n div 10) @ [digit n]"

text \<open>
  \<^verbatim>\<open>datetime.isoformat()\<close> of a naive datetime: the fraction is printed only when the
  microsecond field is not zero.
\<close>

fun isoformat :: "datetime \<Rightarrow> string" where
  "isoformat (y, mo, d, h, mi, s, us) =
     zpad 4 y @ ''-'' @ zpad 2 mo @ ''-'' @ zpad 2 d @ ''T'' @
     zpad 2 h @ '':'' @ zpad 2 mi @ '':'' @ zpad 2 s @
     (if us = 0 then [] else ''.'' @ zpad 6 us)"

subsection \<open>\<^verbatim>\<open>str.encode()\<close> and \<^verbatim>\<open>hashlib.sha256\<close>\<close>

text \<open>
  Characters are the code points 0..255 of Isabelle's \<^typ>\<open>char\<close>; UTF-8 writes a code
  point below 128 as itself and the others as two bytes.
\<close>

definition encode :: "string \<Rightarrow> int list" where
  "encode s = concat (map (\<lambda>c. let n = (of_char c :: int) in
                 if n < 128 then [n] else [192 + n div 64, 128 + n mod 64]) s)"

text \<open>
  SHA-256 (FIPS 180-4) on 32-bit words held as integers, every sum reduced by
  \<open>take_bit 32\<close>, that is modulo \<open>2 ^ 32\<close>.
\<close>

definition rotr :: "nat \<Rightarrow> int \<Rightarrow> int" where
  "rotr n x = drop_bit n x OR take_bit 32 (push_bit (32 - n) x)"

text \<open>The round constants, eight to a row.\<close>

definition K256_rows :: "int list list" where
  "K256_rows = [
   [0x428a2f98, 0x71374491, 0xb5c0fbcf, 0xe9b5dba5, 0x3956c25b, 0x59f111f1, 0x923f82a4, 0xab1c5ed5],
   [0xd807aa98, 0x12835b01, 0x243185be, 0x550c7dc3, 0x72be5d74, 0x80deb1fe, 0x9bdc06a7, 0xc19bf174],
   [0xe49b69c1, 0xefbe4786, 0x0fc19dc6, 0x240ca1cc, 0x2de92c6f, 0x4a7484aa, 0x5cb0a9dc, 0x76f988da],
   [0x983e5152, 0xa831c66d, 0xb00327c8, 0xbf597fc7, 0xc6e00bf3, 0xd5a79147, 0x06ca6351, 0x14292967],
   [0x27b70a85, 0x2e1b2138, 0x4d2c6dfc, 0x53380d13, 0x650a7354, 0x766a0abb, 0x81c2c92e, 0x92722c85],
   [0xa2bfe8a1, 0xa81a664b, 0xc24b8b70, 0xc76c51a3, 0xd192e819, 0xd6990624, 0xf40e3585, 0x106aa070],
   [0x19a4c116, 0x1e376c08, 0x2748774c, 0x34b0bcb5, 0x391c0cb3, 0x4ed8aa4a, 0x5b9cca4f, 0x682e6ff3],
   [0x748f82ee, 0x78a5636f, 0x84c87814, 0x8cc70208, 0x90befffa, 0xa4506ceb, 0xbef9a3f7, 0xc67178f2]]"

definition K256 :: "int list" where
  "K256 = concat K256_rows"

type_synonym sha_state = "int \<times> int \<times> int \<times> int \<times> int \<times> int \<times> int \<times> int"

definition H256 :: sha_state where
  "H256 = (0x6a09e667, 0xbb67ae85, 0x3c6ef372, 0xa54ff53a,
           0x510e527f, 0x9b05688c, 0x1f83d9ab, 0x5be0cd19)"

definition ssig0 :: "int \<Rightarrow> int" where
  "ssig0 x = rotr 7 x XOR rotr 18 x XOR drop_bit 3 x"

definition ssig1 :: "int \<Rightarrow> int" where
  "ssig1 x = rotr 17 x XOR rotr 19 x XOR drop_bit 10 x"

definition bsig0 :: "int \<Rightarrow> int" where
  "bsig0 x = rotr 2 x XOR rotr 13 x XOR rotr 22 x"

definition bsig1 :: "int \<Rightarrow> int" where
  "bsig1 x = rotr 6 x XOR rotr 11 x XOR rotr 25 x"

definition ch :: "int \<Rightarrow> int \<Rightarrow> int \<Rightarrow> int" where
  "ch x y z = (x AND y) XOR ((x XOR 0xFFFFFFFF) AND z)"

definition maj :: "int \<Rightarrow> int \<Rightarrow> int \<Rightarrow> int" where
  "maj x y z = (x AND y) XOR (x AND z) XOR (y AND z)"

text \<open>The message schedule, newest word first: \<open>ws = [W(t-1), W(t-2), ...]\<close>.\<close>

fun schedule :: "nat \<Rightarrow> int list \<Rightarrow> int list" where
  "schedule 0 ws = ws"
| "schedule (Suc n) ws =
     schedule n (take_bit 32 (ssig1 (ws ! 1) + ws ! 6 + ssig0 (ws ! 14) + ws ! 15) # ws)"

fun round_step :: "sha_state \<Rightarrow> int \<times> int \<Rightarrow> sha_state" where
  "round_step (a, b, c, d, e, f, g, h) (k, w) =
     (let t1 = take_bit 32 (h + bsig1 e + ch e f g + k + w);
          t2 = take_bit 32 (bsig0 a + maj a b c)
      in (take_bit 32 (t1 + t2), a, b, c, take_bit 32 (d + t1), e, f, g))"

fun add_state :: "sha_state \<Rightarrow> sha_state \<Rightarrow> sha_state" where
  "add_state (a, b, c, d, e, f, g, h) (a', b', c', d', e', f', g', h') =
     (take_bit 32 (a + a'), take_bit 32 (b + b'), take_bit 32 (c + c'), take_bit 32 (d + d'),
      take_bit 32 (e + e'), take_bit 32 (f + f'), take_bit 32 (g + g'), take_bit 32 (h + h'))"

definition be32 :: "int list \<Rightarrow> int" where
  "be32 bs = foldl (\<lambda>acc b. acc * 256 + b) 0 bs"

fun words_of :: "nat \<Rightarrow> int list \<Rightarrow> int list" where
  "words_of 0 bs = []"
| "words_of (Suc n) bs = be32 (take 4 bs) # words_of n (drop 4 bs)"

definition compress :: "sha_state \<Rightarrow> int list \<Rightarrow> sha_state" where
  "compress st block =
     (let w64 = rev (schedule 48 (rev (words_of 16 block)))
      in add_state st (foldl round_step st (zip K256 w64)))"

fun blocks :: "nat \<Rightarrow> sha_state \<Rightarrow> int list \<Rightarrow> sha_state" where
  "blocks 0 st bs = st"
| "blocks (Suc n) st bs = blocks n (compress st (take 64 bs)) (drop 64 bs)"

definition be64 :: "int \<Rightarrow> int list" where
  "be64 v = map (\<lambda>i. drop_bit (8 * (7 - i)) v mod 256) [0..<8]"

definition pad :: "int list \<Rightarrow> int list" where
  "pad m = m @ [128] @ replicate ((119 - length m mod 64) mod 64) 0 @ be64 (8 * int (length m))"

definition hexdigit :: "int \<Rightarrow> char" where
  "hexdigit n = ''0123456789abcdef'' ! nat n"

definition hex32 :: "int \<Rightarrow> string" where
  "hex32 w = map (\<lambda>i. hexdigit (drop_bit (4 * (7 - i)) w mod 16)) [0..<8]"

fun state_words :: "sha_state \<Rightarrow> int list" where
  "state_words (a, b, c, d, e, f, g, h) = [a, b, c, d, e, f, g, h]"

text \<open>\<^verbatim>\<open>hashlib.sha256(data).hexdigest()\<close>\<close>

definition sha256_hexdigest :: "int list \<Rightarrow> string" where
  "sha256_hexdigest m =
     (let p = pad m in concat (map hex32 (state_words (blocks (length p div 64) H256 p))))"

text \<open>
  \<^verbatim>\<open>create_document_hash\<close>:
  \<^verbatim>\<open>data = f"{content}{user_id}{timestamp.isoformat()}"\<close>, then the SHA-256 hex digest of
  \<^verbatim>\<open>data.encode()\<close>.
\<close>

definition create_document_hash :: "string \<Rightarrow> string \<Rightarrow> datetime \<Rightarrow> string" where
  "create_document_hash content user_id timestamp =
     sha256_hexdigest (encode (content @ user_id @ isoformat timestamp))"

subsection \<open>Stored entities\<close>

text \<open>
  The dictionaries the handlers insert into the five collections, one record per
  collection. A field the handler may leave out or set to \<^verbatim>\<open>None\<close> is an option.
\<close>

record user =
  u_id :: string
  u_email :: string
  u_first_name :: string
  u_last_name :: string
  u_role :: string
  u_clinic_id :: "string option"
  u_password_hash :: string
  u_created_at :: datetime
  u_is_active :: bool

record clinic =
  c_id :: string
  c_slug :: string
  c_name :: string
  c_abn :: "string option"
  c_address :: string
  c_state :: string
  c_phone :: "string option"
  c_email :: "string option"
  c_owner_id :: string
  c_created_at :: datetime

record document =
  d_id :: string
  d_title :: string
  d_content :: string
  d_category :: string
  d_jurisdiction :: string
  d_clinic_id :: string
  d_status :: string
  d_version :: int
  d_tags :: "string list"
  d_created_by :: string
  d_created_at :: datetime
  d_updated_at :: datetime
  d_signature_hash :: "string option"
  d_signed_by :: "string option"
  d_signed_at :: "datetime option"

record risk =
  r_id :: string
  r_title :: string
  r_description :: string
  r_category :: string
  r_severity :: int
  r_likelihood :: int
  r_mitigation_plan :: "string option"
  r_clinic_id :: string
  r_risk_score :: int
  r_status :: string
  r_owner_id :: "string option"
  r_linked_docs :: "string list"
  r_created_at :: datetime
  r_updated_at :: datetime

text \<open>An audit record; the score \<^verbatim>\<open>85.0\<close> is kept as the integer 85.\<close>

record audit =
  a_id :: string
  a_document_id :: string
  a_score :: int
  a_compliance_issues :: "string list"
  a_recommendations :: "string list"
  a_racgp_coverage :: "(string \<times> bool) list"
  a_audited_by :: string
  a_audited_at :: datetime

subsection \<open>Request bodies\<close>

record UserCreate =
  uc_email :: string
  uc_first_name :: string
  uc_last_name :: string
  uc_role :: string
  uc_password :: string
  uc_clinic_id :: "string option"

record ClinicCreate =
  cc_name :: string
  cc_abn :: "string option"
  cc_address :: string
  cc_state :: string
  cc_phone :: "string option"
  cc_email :: "string option"

record DocumentGenerationRequest =
  g_prompt :: string
  g_category :: string
  g_jurisdiction :: string
  g_clinic_id :: string

record RiskCreate =
  rc_title :: string
  rc_description :: string
  rc_category :: string
  rc_severity :: int
  rc_likelihood :: int
  rc_mitigation_plan :: "string option"
  rc_clinic_id :: string

record UploadFile =
  f_filename :: string
  f_size :: int
  f_content_type :: string

record AuditResult =
  ar_document_id :: string
  ar_score :: int
  ar_compliance_issues :: "string list"
  ar_recommendations :: "string list"
  ar_racgp_coverage :: "(string \<times> bool) list"

subsection \<open>The store and the process environment\<close>

text \<open>
  Each collection is the list of its entries in insertion order (the order an unsorted
  \<^verbatim>\<open>find\<close> returns them in). \<open>OPENAI_API_KEY\<close> is the environment variable of that
  name.
\<close>

record state =
  users :: "user list"
  clinics :: "clinic list"
  documents :: "document list"
  risks :: "risk list"
  audits :: "audit list"
  OPENAI_API_KEY :: "string option"

text \<open>\<^verbatim>\<open>update_one(filter, {"$set": ...})\<close>: the first entry the filter matches is updated.\<close>

fun update_one :: "('a \<Rightarrow> bool) \<Rightarrow> ('a \<Rightarrow> 'a) \<Rightarrow> 'a list \<Rightarrow> 'a list" where
  "update_one p f [] = []"
| "update_one p f (x # xs) = (if p x then f x # xs else x # update_one p f xs)"

text \<open>
  \<^verbatim>\<open>.sort(key, -1)\<close>: descending by the key. Entries with equal keys are kept in
  insertion order here; the theorems below that speak of the order hold for any order of
  ties.
\<close>

fun insort_desc :: "('a \<Rightarrow> 'k::linorder) \<Rightarrow> 'a \<Rightarrow> 'a list \<Rightarrow> 'a list" where
  "insort_desc k x [] = [x]"
| "insort_desc k x (y # ys) = (if k y \<le> k x then x # y # ys else y # insort_desc k x ys)"

definition sort_desc :: "('a \<Rightarrow> 'k::linorder) \<Rightarrow> 'a list \<Rightarrow> 'a list" where
  "sort_desc k xs = foldr (insort_desc k) xs []"

text \<open>Python's truth value of an optional string: \<^verbatim>\<open>None\<close> and \<^verbatim>\<open>""\<close> are false.\<close>

definition truthy :: "string option \<Rightarrow> bool" where
  "truthy x = (case x of None \<Rightarrow> False | Some v \<Rightarrow> v \<noteq> [])"

text \<open>One equality condition of a query dictionary; \<open>None\<close>: the key is not in the query.\<close>

definition matches :: "'a option \<Rightarrow> 'a \<Rightarrow> bool" where
  "matches q v = (case q of None \<Rightarrow> True | Some x \<Rightarrow> v = x)"

section \<open>Utilities\<close>

definition NL :: char where
  "NL = CHR 0x0A"

definition generation_system_message :: "string \<Rightarrow> string \<Rightarrow> string" where
  "generation_system_message category jurisdiction =
     ''You are an expert in Australian healthcare compliance and policy writing for General Practice clinics.'' @ [NL] @
     [NL] @
     ''Generate a comprehensive '' @ category @ '' document for '' @ jurisdiction @ '' jurisdiction that complies with:'' @ [NL] @
     ''- RACGP Standards for General Practices 5th Edition'' @ [NL] @
     ''- National Vaccine Storage Guidelines (Strive for 5)'' @ [NL] @
     ''- State-specific regulations for '' @ jurisdiction @ [NL] @
     [NL] @
     ''Format the response as a structured policy document with:'' @ [NL] @
     ''1. Title'' @ [NL] @
     ''2. Purpose/Scope'' @ [NL] @
     ''3. Policy Statement'' @ [NL] @
     ''4. Procedures (numbered steps)'' @ [NL] @
     ''5. Responsibilities'' @ [NL] @
     ''6. References to relevant standards'' @ [NL] @
     ''7. Review requirements'' @ [NL] @
     [NL] @
     ''Make it specific to Australian General Practice operations and include relevant compliance references.''"

definition audit_system_message :: "string \<Rightarrow> string" where
  "audit_system_message jurisdiction =
     ''You are an expert compliance auditor for Australian General Practice clinics.'' @ [NL] @
     [NL] @
     ''Audit the provided document against:'' @ [NL] @
     ''- RACGP Standards for General Practices 5th Edition'' @ [NL] @
     ''- '' @ jurisdiction @ '' specific healthcare regulations'' @ [NL] @
     ''- Best practices for GP clinic operations'' @ [NL] @
     [NL] @
     ''Provide a detailed compliance analysis with:'' @ [NL] @
     ''1. Overall compliance score (0-100)'' @ [NL] @
     ''2. Specific compliance issues found'' @ [NL] @
     ''3. Recommendations for improvement'' @ [NL] @
     ''4. RACGP standard coverage assessment'' @ [NL] @
     [NL] @
     ''Return the analysis in JSON format.''"

text \<open>
  The language-model client: \<open>send_message api_key system_message text\<close> is what
  \<^verbatim>\<open>LlmChat(api_key, session_id, system_message)...send_message(UserMessage(text))\<close>
  does, return the answer or raise.
\<close>

type_synonym llm = "string \<Rightarrow> string \<Rightarrow> string \<Rightarrow> exception + string"

text \<open>
  \<^verbatim>\<open>generate_ai_document\<close>. The whole body, the check of the API key included, stands
  inside \<^verbatim>\<open>try: ... except Exception as e:\<close>, and \<^verbatim>\<open>HTTPException\<close> is an
  \<^verbatim>\<open>Exception\<close>: whatever the body raises, the handler raises
  \<^verbatim>\<open>HTTPException(500, "Document generation failed")\<close> in its place.
\<close>

definition generate_ai_document_body ::
  "string option \<Rightarrow> llm \<Rightarrow> string \<Rightarrow> string \<Rightarrow> string \<Rightarrow> exception + string" where
  "generate_ai_document_body api_key send_message prompt jurisdiction category =
     (if \<not> truthy api_key then Inl (HTTPException 500 ''AI service not configured'')
      else send_message (the api_key) (generation_system_message category jurisdiction) prompt)"

definition generate_ai_document ::
  "string option \<Rightarrow> llm \<Rightarrow> string \<Rightarrow> string \<Rightarrow> string \<Rightarrow> exception + string" where
  "generate_ai_document api_key send_message prompt jurisdiction category =
     (case generate_ai_document_body api_key send_message prompt jurisdiction category of
        Inl e \<Rightarrow> Inl (HTTPException 500 ''Document generation failed'')
      | Inr response \<Rightarrow> Inr response)"

text \<open>
  \<^verbatim>\<open>audit_document\<close>: the same \<^verbatim>\<open>try\<close>/\<^verbatim>\<open>except\<close> shape; the answer of the
  model is not parsed, the result is the fixed record.
\<close>

definition audit_document_body ::
  "string option \<Rightarrow> llm \<Rightarrow> string \<Rightarrow> string \<Rightarrow> exception + AuditResult" where
  "audit_document_body api_key send_message content jurisdiction =
     (if \<not> truthy api_key then Inl (HTTPException 500 ''AI service not configured'')
      else case send_message (the api_key) (audit_system_message jurisdiction)
                  (''Audit this document:'' @ [NL, NL] @ content) of
        Inl e \<Rightarrow> Inl e
      | Inr response \<Rightarrow>
          Inr \<lparr>ar_document_id = [], ar_score = 85, ar_compliance_issues = [],
               ar_recommendations = [''Review and update annually'', ''Ensure staff training''],
               ar_racgp_coverage = [(''Standard_1'', True), (''Standard_2'', True)]\<rparr>)"

definition audit_document ::
  "string option \<Rightarrow> llm \<Rightarrow> string \<Rightarrow> string \<Rightarrow> exception + AuditResult" where
  "audit_document api_key send_message content jurisdiction =
     (case audit_document_body api_key send_message content jurisdiction of
        Inl e \<Rightarrow> Inl (HTTPException 500 ''Document audit failed'')
      | Inr result \<Rightarrow> Inr result)"

section \<open>Title extraction (in \<^verbatim>\<open>generate_document\<close>)\<close>

text \<open>
  Python's whitespace, for \<^verbatim>\<open>\s\<close> of a \<^verbatim>\<open>str\<close> pattern and for
  \<^verbatim>\<open>str.strip()\<close> alike, among the code points 0..255.
\<close>

definition is_space :: "char \<Rightarrow> bool" where
  "is_space c = (let n = (of_char c :: nat) in
     (9 \<le> n \<and> n \<le> 13) \<or> (28 \<le> n \<and> n \<le> 32) \<or> n = 133 \<or> n = 160)"

text \<open>
  \<^verbatim>\<open>re.search(r'^#+\s*(.+)$', ai_content, re.MULTILINE)\<close>, written out as the
  backtracking matcher runs it.

  \<^verbatim>\<open>(.+)$\<close> at a position: \<^verbatim>\<open>.\<close> takes every character but the newline, greedily,
  so the group is the rest of the line, and it must not be empty; \<^verbatim>\<open>$\<close> then holds (end of
  text or before a newline).
\<close>

definition group_at :: "string \<Rightarrow> string option" where
  "group_at s = (let g = takeWhile (\<lambda>c. c \<noteq> NL) s in if g = [] then None else Some g)"

text \<open>
  \<^verbatim>\<open>\s*(.+)$\<close> with \<open>w\<close> whitespace characters taken: on failure \<^verbatim>\<open>\s*\<close> gives one
  character back and the rest is tried again.
\<close>

fun try_ws :: "nat \<Rightarrow> string \<Rightarrow> string option" where
  "try_ws 0 s = group_at s"
| "try_ws (Suc w) s =
     (case group_at (drop (Suc w) s) of Some g \<Rightarrow> Some g | None \<Rightarrow> try_ws w s)"

text \<open>
  \<^verbatim>\<open>#+\s*(.+)$\<close> with \<open>h\<close> hash signs taken; \<^verbatim>\<open>\s*\<close> first takes all the
  whitespace that follows (newlines are whitespace). On failure \<^verbatim>\<open>#+\<close> gives one hash
  sign back, down to one.
\<close>

fun try_hashes :: "nat \<Rightarrow> string \<Rightarrow> string option" where
  "try_hashes 0 s = None"
| "try_hashes (Suc h) s =
     (case try_ws (length (takeWhile is_space (drop (Suc h) s))) (drop (Suc h) s) of
        Some g \<Rightarrow> Some g
      | None \<Rightarrow> try_hashes h s)"

definition match_here :: "string \<Rightarrow> string option" where
  "match_here s = try_hashes (length (takeWhile (\<lambda>c. c = CHR ''#'') s)) s"

text \<open>
  The search tries the positions from left to right; \<^verbatim>\<open>^\<close> holds at the start of the
  text and after every newline (\<open>bol\<close>). The result is \<^verbatim>\<open>group(1)\<close> of the first
  match.
\<close>

fun search_from :: "bool \<Rightarrow> string \<Rightarrow> string option" where
  "search_from bol [] = None"
| "search_from bol (c # cs) =
     (case (if bol then match_here (c # cs) else None) of
        Some g \<Rightarrow> Some g
      | None \<Rightarrow> search_from (c = NL) cs)"

text \<open>\<^verbatim>\<open>str.strip()\<close>\<close>

definition strip :: "string \<Rightarrow> string" where
  "strip s = rev (dropWhile is_space (rev (dropWhile is_space s)))"

text \<open>\<^verbatim>\<open>re.sub(r'[#*_`]', '', title)\<close>\<close>

definition is_marker :: "char \<Rightarrow> bool" where
  "is_marker c = (c = CHR ''#'' \<or> c = CHR ''*'' \<or> c = CHR ''_'' \<or> c = CHR 0x60)"

definition remove_markers :: "string \<Rightarrow> string" where
  "remove_markers s = filter (\<lambda>c. \<not> is_marker c) s"

text \<open>\<^verbatim>\<open>ai_content.split('.')[0]\<close>\<close>

definition first_sentence :: "string \<Rightarrow> string" where
  "first_sentence s = takeWhile (\<lambda>c. c \<noteq> CHR ''.'') s"

definition extract_title :: "string \<Rightarrow> string" where
  "extract_title ai_content =
     (let extracted_title =
        (case search_from True ai_content of
           Some g \<Rightarrow> strip g
         | None \<Rightarrow>
             (if length (first_sentence ai_content) > 100
              then take 100 (first_sentence ai_content) @ ''...''
              else first_sentence ai_content))
      in strip (remove_markers extracted_title))"

subsection \<open>The heading line in the words of the specification\<close>

text \<open>
  The lines of a text (\<^verbatim>\<open>text.split('\n')\<close>); a heading line is a line that begins with
  a hash sign; its text is what follows the hash signs and the whitespace after them.
\<close>

fun split_lines :: "string \<Rightarrow> string list" where
  "split_lines [] = [[]]"
| "split_lines (c # cs) =
     (if c = NL then [] # split_lines cs
      else (case split_lines cs of l # ls \<Rightarrow> (c # l) # ls | [] \<Rightarrow> [[c]]))"

definition is_heading_line :: "string \<Rightarrow> bool" where
  "is_heading_line l = (case l of [] \<Rightarrow> False | c # cs \<Rightarrow> c = CHR ''#'')"

definition spec_first_heading_line :: "string \<Rightarrow> string option" where
  "spec_first_heading_line s = find is_heading_line (split_lines s)"

definition spec_heading_text :: "string \<Rightarrow> string" where
  "spec_heading_text l = dropWhile is_space (dropWhile (\<lambda>c. c = CHR ''#'') l)"

section \<open>Route handlers\<close>

text \<open>
  Every handler returns its outcome (\<open>Inl\<close> the exception raised) and the store after
  the call. Arguments named \<open>now\<close>, \<open>now1\<close>, ... are the readings of
  \<^verbatim>\<open>datetime.utcnow()\<close> in the order of the calls in the source.
\<close>

definition DRAFT :: string where "DRAFT = ''draft''"
definition REVIEW :: string where "REVIEW = ''review''"
definition PUBLISHED :: string where "PUBLISHED = ''published''"
definition ARCHIVED :: string where "ARCHIVED = ''archived''"

subsection \<open>Authentication and clinics\<close>

text \<open>
  \<^verbatim>\<open>register\<close>; \<open>hashed_password\<close> is what \<^verbatim>\<open>bcrypt\<close> returned. The result is
  the stored user (the token that goes with it is the work of the \<^verbatim>\<open>jwt\<close> library).
\<close>

definition register ::
  "state \<Rightarrow> UserCreate \<Rightarrow> string \<Rightarrow> string \<Rightarrow> datetime \<Rightarrow> (exception + user) \<times> state" where
  "register s user_data user_id hashed_password now =
     (case find (\<lambda>u. u_email u = uc_email user_data) (users s) of
        Some u \<Rightarrow> (Inl (HTTPException 400 ''Email already registered''), s)
      | None \<Rightarrow>
          (let user_doc = \<lparr>u_id = user_id, u_email = uc_email user_data,
                 u_first_name = uc_first_name user_data, u_last_name = uc_last_name user_data,
                 u_role = uc_role user_data, u_clinic_id = uc_clinic_id user_data,
                 u_password_hash = hashed_password, u_created_at = now, u_is_active = True\<rparr>
           in (Inr user_doc, s\<lparr>users := users s @ [user_doc]\<rparr>)))"

text \<open>\<^verbatim>\<open>create_clinic\<close>; \<open>clinic_slug\<close> is what \<^verbatim>\<open>slugify(clinic_data.name)\<close> returned.\<close>

definition create_clinic ::
  "state \<Rightarrow> ClinicCreate \<Rightarrow> user \<Rightarrow> string \<Rightarrow> string \<Rightarrow> datetime \<Rightarrow> (exception + clinic) \<times> state" where
  "create_clinic s clinic_data current_user clinic_id clinic_slug now =
     (let clinic_doc = \<lparr>c_id = clinic_id, c_slug = clinic_slug, c_name = cc_name clinic_data,
            c_abn = cc_abn clinic_data, c_address = cc_address clinic_data,
            c_state = cc_state clinic_data, c_phone = cc_phone clinic_data,
            c_email = cc_email clinic_data, c_owner_id = u_id current_user, c_created_at = now\<rparr>
      in (Inr clinic_doc,
          s\<lparr>clinics := clinics s @ [clinic_doc],
            users := update_one (\<lambda>u. u_id u = u_id current_user)
                       (\<lambda>u. u\<lparr>u_clinic_id := Some clinic_id\<rparr>) (users s)\<rparr>))"

text \<open>\<^verbatim>\<open>get_user_clinics\<close>\<close>

definition get_user_clinics :: "state \<Rightarrow> user \<Rightarrow> clinic list" where
  "get_user_clinics s current_user =
     take 100 (filter (\<lambda>c. c_owner_id c = u_id current_user \<or>
                            Some (c_id c) = u_clinic_id current_user) (clinics s))"

subsection \<open>Documents\<close>

definition generate_document ::
  "state \<Rightarrow> llm \<Rightarrow> DocumentGenerationRequest \<Rightarrow> user \<Rightarrow> string \<Rightarrow> datetime \<Rightarrow> datetime
     \<Rightarrow> (exception + document) \<times> state" where
  "generate_document s send_message request current_user doc_id now1 now2 =
     (case find (\<lambda>c. c_id c = g_clinic_id request) (clinics s) of
        None \<Rightarrow> (Inl (HTTPException 404 ''Clinic not found''), s)
      | Some clinic \<Rightarrow>
          (case generate_ai_document (OPENAI_API_KEY s) send_message (g_prompt request)
                  (g_jurisdiction request) (g_category request) of
             Inl e \<Rightarrow> (Inl e, s)
           | Inr ai_content \<Rightarrow>
               (let doc = \<lparr>d_id = doc_id, d_title = extract_title ai_content,
                      d_content = ai_content, d_category = g_category request,
                      d_jurisdiction = g_jurisdiction request, d_clinic_id = g_clinic_id request,
                      d_status = DRAFT, d_version = 1, d_tags = [],
                      d_created_by = u_id current_user, d_created_at = now1, d_updated_at = now2,
                      d_signature_hash = None, d_signed_by = None, d_signed_at = None\<rparr>
                in (Inr doc, s\<lparr>documents := documents s @ [doc]\<rparr>))))"

text \<open>
  The clinic part of the query of \<^verbatim>\<open>get_documents\<close> and \<^verbatim>\<open>get_risks\<close>:
  \<^verbatim>\<open>if clinic_id: ... elif current_user.get("clinic_id"): ...\<close>; \<open>None\<close> when neither
  branch runs and the query has no \<^verbatim>\<open>clinic_id\<close> key.
\<close>

definition clinic_query :: "string option \<Rightarrow> user \<Rightarrow> string option" where
  "clinic_query clinic_id current_user =
     (if truthy clinic_id then clinic_id
      else if truthy (u_clinic_id current_user) then u_clinic_id current_user
      else None)"

definition get_documents ::
  "state \<Rightarrow> string option \<Rightarrow> string option \<Rightarrow> string option \<Rightarrow> user \<Rightarrow> document list" where
  "get_documents s clinic_id status category current_user =
     (let q_clinic = clinic_query clinic_id current_user;
          q_status = (if truthy status then status else None);
          q_category = (if truthy category then category else None)
      in take 100 (sort_desc d_created_at
           (filter (\<lambda>d. matches q_clinic (d_clinic_id d) \<and> matches q_status (d_status d) \<and>
                         matches q_category (d_category d)) (documents s))))"

definition valid_statuses :: "string list" where
  "valid_statuses = [DRAFT, REVIEW, PUBLISHED, ARCHIVED]"

text \<open>
  \<^verbatim>\<open>update_document_status\<close>. \<open>now1\<close> is the reading stored as \<^verbatim>\<open>updated_at\<close>;
  when publishing, \<open>now2\<close> is the reading passed to \<^verbatim>\<open>create_document_hash\<close> and
  \<open>now3\<close> the one stored as \<^verbatim>\<open>signed_at\<close> (three calls of
  \<^verbatim>\<open>datetime.utcnow()\<close>). \<^verbatim>\<open>$set\<close> overwrites the fields of \<^verbatim>\<open>update_data\<close>
  and leaves every other field of the entry.
\<close>

definition update_document_status ::
  "state \<Rightarrow> string \<Rightarrow> string \<Rightarrow> user \<Rightarrow> datetime \<Rightarrow> datetime \<Rightarrow> datetime
     \<Rightarrow> (exception + string \<times> string) \<times> state" where
  "update_document_status s doc_id status current_user now1 now2 now3 =
     (if status \<notin> set valid_statuses then (Inl (HTTPException 400 ''Invalid status''), s)
      else case find (\<lambda>d. d_id d = doc_id) (documents s) of
        None \<Rightarrow> (Inl (HTTPException 404 ''Document not found''), s)
      | Some doc \<Rightarrow>
          (let update_data = (\<lambda>d. d\<lparr>d_status := status, d_updated_at := now1\<rparr>);
               update_data =
                 (if status = PUBLISHED
                  then (\<lambda>d. (update_data d)
                          \<lparr>d_signature_hash :=
                             Some (create_document_hash (d_content doc) (u_id current_user) now2),
                           d_signed_by := Some (u_id current_user),
                           d_signed_at := Some now3\<rparr>)
                  else update_data)
           in (Inr (''Document status updated'', status),
               s\<lparr>documents := update_one (\<lambda>d. d_id d = doc_id) update_data (documents s)\<rparr>)))"

definition audit_document_endpoint ::
  "state \<Rightarrow> llm \<Rightarrow> string \<Rightarrow> user \<Rightarrow> string \<Rightarrow> datetime \<Rightarrow> (exception + AuditResult) \<times> state" where
  "audit_document_endpoint s send_message doc_id current_user audit_id now =
     (case find (\<lambda>d. d_id d = doc_id) (documents s) of
        None \<Rightarrow> (Inl (HTTPException 404 ''Document not found''), s)
      | Some doc \<Rightarrow>
          (case audit_document (OPENAI_API_KEY s) send_message (d_content doc)
                  (d_jurisdiction doc) of
             Inl e \<Rightarrow> (Inl e, s)
           | Inr r \<Rightarrow>
               (let audit_result = r\<lparr>ar_document_id := doc_id\<rparr>;
                    audit_doc = \<lparr>a_id = audit_id, a_document_id = doc_id,
                      a_score = ar_score audit_result,
                      a_compliance_issues = ar_compliance_issues audit_result,
                      a_recommendations = ar_recommendations audit_result,
                      a_racgp_coverage = ar_racgp_coverage audit_result,
                      a_audited_by = u_id current_user, a_audited_at = now\<rparr>
                in (Inr audit_result, s\<lparr>audits := audits s @ [audit_doc]\<rparr>))))"

text \<open>
  \<^verbatim>\<open>upload_document\<close>; \<open>extracted\<close> is the outcome of the text extraction
  (\<^verbatim>\<open>pypdf\<close>, \<^verbatim>\<open>python-docx\<close> or \<^verbatim>\<open>bytes.decode\<close>): \<open>Inl\<close> the message of the
  exception, \<open>Inr\<close> the text.
\<close>

definition upload_document ::
  "state \<Rightarrow> UploadFile \<Rightarrow> string \<Rightarrow> string \<Rightarrow> string \<Rightarrow> user \<Rightarrow> string + string \<Rightarrow> string
     \<Rightarrow> datetime \<Rightarrow> datetime \<Rightarrow> (exception + string \<times> string) \<times> state" where
  "upload_document s file clinic_id category jurisdiction current_user extracted doc_id now1 now2 =
     (if f_size file > 20 * 1024 * 1024 then (Inl (HTTPException 400 ''File too large''), s)
      else case extracted of
        Inl msg \<Rightarrow> (Inl (HTTPException 400 (''Failed to process file: '' @ msg)), s)
      | Inr extracted_text \<Rightarrow>
          (let doc = \<lparr>d_id = doc_id, d_title = f_filename file, d_content = extracted_text,
                 d_category = category, d_jurisdiction = jurisdiction, d_clinic_id = clinic_id,
                 d_status = DRAFT, d_version = 1, d_tags = [''uploaded''],
                 d_created_by = u_id current_user, d_created_at = now1, d_updated_at = now2,
                 d_signature_hash = None, d_signed_by = None, d_signed_at = None\<rparr>
           in (Inr (''Document uploaded successfully'', doc_id),
               s\<lparr>documents := documents s @ [doc]\<rparr>)))"

subsection \<open>Risks\<close>

text \<open>
  \<^verbatim>\<open>create_risk\<close>. The body is a \<^verbatim>\<open>RiskCreate\<close>, whose fields \<^verbatim>\<open>severity\<close> and
  \<^verbatim>\<open>likelihood\<close> are declared \<^verbatim>\<open>Field(..., ge=1, le=5)\<close>: FastAPI validates the body
  before the handler runs and answers a body that fails with a validation error.
\<close>

definition RiskCreate_valid :: "RiskCreate \<Rightarrow> bool" where
  "RiskCreate_valid risk_data =
     (1 \<le> rc_severity risk_data \<and> rc_severity risk_data \<le> 5 \<and>
      1 \<le> rc_likelihood risk_data \<and> rc_likelihood risk_data \<le> 5)"

definition create_risk ::
  "state \<Rightarrow> RiskCreate \<Rightarrow> user \<Rightarrow> string \<Rightarrow> datetime \<Rightarrow> datetime \<Rightarrow> (exception + risk) \<times> state" where
  "create_risk s risk_data current_user risk_id now1 now2 =
     (if \<not> RiskCreate_valid risk_data then (Inl RequestValidationError, s)
      else
        (let risk_doc = \<lparr>r_id = risk_id, r_title = rc_title risk_data,
               r_description = rc_description risk_data, r_category = rc_category risk_data,
               r_severity = rc_severity risk_data, r_likelihood = rc_likelihood risk_data,
               r_mitigation_plan = rc_mitigation_plan risk_data,
               r_clinic_id = rc_clinic_id risk_data,
               r_risk_score = rc_severity risk_data * rc_likelihood risk_data,
               r_status = ''open'', r_owner_id = Some (u_id current_user), r_linked_docs = [],
               r_created_at = now1, r_updated_at = now2\<rparr>
         in (Inr risk_doc, s\<lparr>risks := risks s @ [risk_doc]\<rparr>)))"

definition get_risks :: "state \<Rightarrow> string option \<Rightarrow> user \<Rightarrow> risk list" where
  "get_risks s clinic_id current_user =
     take 100 (sort_desc r_risk_score
       (filter (\<lambda>r. matches (clinic_query clinic_id current_user) (r_clinic_id r)) (risks s)))"

subsection \<open>Settings\<close>

text \<open>
  \<^verbatim>\<open>save_settings\<close>; \<open>key\<close> is \<^verbatim>\<open>settings.get('openai_api_key')\<close> and \<open>io_ok\<close>
  tells whether reading and rewriting the \<^verbatim>\<open>.env\<close> file went through (the content of
  the file is not part of the state). The environment variable is set after the file is
  written, and \<^verbatim>\<open>os.environ[...] = api_key\<close> raises on a key that holds a NUL
  character; both failures are caught by \<^verbatim>\<open>except Exception\<close>.
\<close>

definition save_settings :: "state \<Rightarrow> string option \<Rightarrow> bool \<Rightarrow> (exception + string) \<times> state" where
  "save_settings s key io_ok =
     (if truthy key then
        (if io_ok \<and> CHR 0x00 \<notin> set (the key)
         then (Inr ''Settings saved successfully'', s\<lparr>OPENAI_API_KEY := key\<rparr>)
         else (Inl (HTTPException 500 ''Failed to save settings''), s))
      else (Inr ''Settings saved successfully'', s))"

section \<open>Sequences of requests\<close>

text \<open>
  The requests that write: every other route (\<^verbatim>\<open>login\<close>, \<^verbatim>\<open>get_current_user_info\<close>,
  \<^verbatim>\<open>get_clinic\<close>, \<^verbatim>\<open>get_user_clinics\<close>, \<^verbatim>\<open>get_documents\<close>, \<^verbatim>\<open>get_document\<close>,
  \<^verbatim>\<open>get_risks\<close>, \<^verbatim>\<open>get_settings\<close>) only reads.
\<close>

datatype op =
    Register UserCreate string string datetime
  | CreateClinic ClinicCreate user string string datetime
  | GenerateDocument llm DocumentGenerationRequest user string datetime datetime
  | UpdateDocumentStatus string string user datetime datetime datetime
  | AuditDocument llm string user string datetime
  | CreateRisk RiskCreate user string datetime datetime
  | UploadDocument UploadFile string string string user "string + string" string datetime datetime
  | SaveSettings "string option" bool

fun step :: "state \<Rightarrow> op \<Rightarrow> state" where
  "step s (Register user_data user_id hashed_password now) =
     snd (register s user_data user_id hashed_password now)"
| "step s (CreateClinic clinic_data current_user clinic_id clinic_slug now) =
     snd (create_clinic s clinic_data current_user clinic_id clinic_slug now)"
| "step s (GenerateDocument send_message request current_user doc_id now1 now2) =
     snd (generate_document s send_message request current_user doc_id now1 now2)"
| "step s (UpdateDocumentStatus doc_id status current_user now1 now2 now3) =
     snd (update_document_status s doc_id status current_user now1 now2 now3)"
| "step s (AuditDocument send_message doc_id current_user audit_id now) =
     snd (audit_document_endpoint s send_message doc_id current_user audit_id now)"
| "step s (CreateRisk risk_data current_user risk_id now1 now2) =
     snd (create_risk s risk_data current_user risk_id now1 now2)"
| "step s (UploadDocument file clinic_id category jurisdiction current_user extracted doc_id now1 now2) =
     snd (upload_document s file clinic_id category jurisdiction current_user extracted doc_id now1 now2)"
| "step s (SaveSettings key io_ok) = snd (save_settings s key io_ok)"

definition run :: "state \<Rightarrow> op list \<Rightarrow> state" where
  "run s ops = foldl step s ops"

text \<open>The store before the first request.\<close>

definition empty_store :: "string option \<Rightarrow> state" where
  "empty_store key =
     \<lparr>users = [], clinics = [], documents = [], risks = [], audits = [], OPENAI_API_KEY = key\<rparr>"

subsection \<open>Signature fields\<close>

definition signed :: "document \<Rightarrow> bool" where
  "signed d = (d_signature_hash d \<noteq> None \<and> d_signed_by d \<noteq> None \<and> d_signed_at d \<noteq> None)"

definition unsigned :: "document \<Rightarrow> bool" where
  "unsigned d = (d_signature_hash d = None \<and> d_signed_by d = None \<and> d_signed_at d = None)"

text \<open>
  What holds of the signature fields of every stored document: a published document is
  signed, and the three fields are set together or not at all.
\<close>

definition signature_ok :: "document \<Rightarrow> bool" where
  "signature_ok d = ((d_status d = PUBLISHED \<longrightarrow> signed d) \<and> (signed d \<or> unsigned d))"

subsection \<open>Which documents have been published\<close>

text \<open>
  A record of the requests, kept beside the store and independent of the signature fields:
  one flag per stored document, in the order of the collection, telling whether some
  request so far was a \<^verbatim>\<open>setStatus\<close> to published that found this document.

  A request to publish the identifier \<open>doc_id\<close> finds the first document with this
  identifier (\<open>mark_one\<close> sets its flag); every other request sets no flag; a document
  the request adds to the collection starts with the flag unset.
\<close>

fun mark_one :: "('a \<Rightarrow> bool) \<Rightarrow> 'a list \<Rightarrow> bool list \<Rightarrow> bool list" where
  "mark_one p [] bs = bs"
| "mark_one p (x # xs) [] = []"
| "mark_one p (x # xs) (b # bs) = (if p x then True # bs else b # mark_one p xs bs)"

definition is_publish :: "op \<Rightarrow> bool" where
  "is_publish op =
     (case op of UpdateDocumentStatus doc_id status u now1 now2 now3 \<Rightarrow> status = PUBLISHED
      | _ \<Rightarrow> False)"

definition flags_step :: "state \<Rightarrow> bool list \<Rightarrow> op \<Rightarrow> bool list" where
  "flags_step s bs op =
     (case op of
        UpdateDocumentStatus doc_id status u now1 now2 now3 \<Rightarrow>
          (if status = PUBLISHED then mark_one (\<lambda>d. d_id d = doc_id) (documents s) bs else bs)
      | _ \<Rightarrow> bs)
     @ replicate (length (documents (step s op)) - length (documents s)) False"

fun ever_published :: "state \<Rightarrow> bool list \<Rightarrow> op list \<Rightarrow> bool list" where
  "ever_published s bs [] = bs"
| "ever_published s bs (op # ops) = ever_published (step s op) (flags_step s bs op) ops"

text \<open>The fields no request is meant to change once the entry is stored.\<close>

definition fixed_fields ::
  "document \<Rightarrow> string \<times> string \<times> string \<times> string \<times> string \<times> string \<times> int \<times> string list \<times> string \<times> datetime" where
  "fixed_fields d =
     (d_id d, d_title d, d_content d, d_category d, d_jurisdiction d, d_clinic_id d,
      d_version d, d_tags d, d_created_by d, d_created_at d)"

section \<open>Example data\<close>

text \<open>Concrete users, entries and stores at which the theorems below are instantiated.\<close>

definition ex_user :: user where
  "ex_user = \<lparr>u_id = ''U'', u_email = ''user@example.com'', u_first_name = ''Test'',
     u_last_name = ''User'', u_role = ''manager'', u_clinic_id = None,
     u_password_hash = ''$2b$12$hash'', u_created_at = (2024, 1, 1, 0, 0, 0, 0),
     u_is_active = True\<rparr>"

definition ex_doc :: document where
  "ex_doc = \<lparr>d_id = ''d1'', d_title = ''Cold Chain Policy'', d_content = ''C'',
     d_category = ''policy'', d_jurisdiction = ''NSW'', d_clinic_id = ''c1'',
     d_status = ''draft'', d_version = 1, d_tags = [], d_created_by = ''U'',
     d_created_at = (2024, 1, 1, 0, 0, 0, 0), d_updated_at = (2024, 1, 1, 0, 0, 0, 0),
     d_signature_hash = None, d_signed_by = None, d_signed_at = None\<rparr>"

definition ex_risk_data :: RiskCreate where
  "ex_risk_data = \<lparr>rc_title = ''Test Clinical Risk'',
     rc_description = ''This is a test risk for clinical operations'',
     rc_category = ''clinical'', rc_severity = 4, rc_likelihood = 3,
     rc_mitigation_plan = Some ''Implement additional safety protocols'',
     rc_clinic_id = ''c1''\<rparr>"

definition ex_risk :: "string \<Rightarrow> string \<Rightarrow> int \<Rightarrow> int \<Rightarrow> risk" where
  "ex_risk rid cid sev lik = \<lparr>r_id = rid, r_title = ''Risk'', r_description = ''A risk'',
     r_category = ''clinical'', r_severity = sev, r_likelihood = lik,
     r_mitigation_plan = None, r_clinic_id = cid, r_risk_score = sev * lik,
     r_status = ''open'', r_owner_id = Some ''U'', r_linked_docs = [],
     r_created_at = (2024, 1, 1, 0, 0, 0, 0), r_updated_at = (2024, 1, 1, 0, 0, 0, 0)\<rparr>"

definition ex_clinic :: "string \<Rightarrow> string \<Rightarrow> clinic" where
  "ex_clinic cid owner = \<lparr>c_id = cid, c_slug = ''test-clinic'', c_name = ''Test Clinic'',
     c_abn = None, c_address = ''123 Test Street, Sydney NSW 2000'', c_state = ''NSW'',
     c_phone = None, c_email = None, c_owner_id = owner,
     c_created_at = (2024, 1, 1, 0, 0, 0, 0)\<rparr>"

definition ex_file :: UploadFile where
  "ex_file = \<lparr>f_filename = ''policy.txt'', f_size = 1, f_content_type = ''text/plain''\<rparr>"

text \<open>Upload a document, publish it, then set it back to draft.\<close>

definition publish_then_draft :: "op list" where
  "publish_then_draft =
     [UploadDocument ex_file ''c1'' ''policy'' ''NSW'' ex_user (Inr ''C'') ''d1''
        (2024, 1, 1, 0, 0, 0, 0) (2024, 1, 1, 0, 0, 0, 0),
      UpdateDocumentStatus ''d1'' ''published'' ex_user
        (2024, 1, 1, 0, 0, 0, 1) (2024, 1, 1, 0, 0, 0, 2) (2024, 1, 1, 0, 0, 0, 3),
      UpdateDocumentStatus ''d1'' ''draft'' ex_user
        (2024, 1, 2, 0, 0, 0, 0) (2024, 1, 2, 0, 0, 0, 0) (2024, 1, 2, 0, 0, 0, 0)]"

text \<open>Generated texts: one with a heading, two with a first sentence of 101 characters.\<close>

definition cold_chain_text :: string where
  "cold_chain_text = ''# Cold Chain Policy'' @ [NL] @ ''Body...''"

definition plain_sentence :: string where
  "plain_sentence = replicate 101 (CHR ''a'')"

definition starred_sentence :: string where
  "starred_sentence = CHR ''*'' # replicate 100 (CHR ''a'')"

definition store_with_docs :: "document list \<Rightarrow> state" where
  "store_with_docs ds = (empty_store None)\<lparr>documents := ds\<rparr>"

definition store_with_risks :: "risk list \<Rightarrow> state" where
  "store_with_risks rs = (empty_store None)\<lparr>risks := rs\<rparr>"

definition store_with_clinics :: "clinic list \<Rightarrow> state" where
  "store_with_clinics cs = (empty_store None)\<lparr>clinics := cs\<rparr>"

section \<open>Lemmas about the store primitives\<close>

lemma length_update_one: "length (update_one p f xs) = length xs"
  by (induction xs) auto

lemma find_update_one:
  assumes "\<And>x. p x \<Longrightarrow> p (f x)"
  shows "find p (update_one p f xs) = map_option f (find p xs)"
  using assms by (induction xs) auto

lemma map_update_one:
  assumes "\<And>x. g (f x) = g x"
  shows "map g (update_one p f xs) = map g xs"
  using assms by (induction xs) auto

lemma nth_update_one_other:
  "i < length xs \<Longrightarrow> \<not> p (xs ! i) \<Longrightarrow> update_one p f xs ! i = xs ! i"
proof (induction xs arbitrary: i)
  case Nil
  then show ?case by simp
next
  case (Cons x xs)
  then show ?case by (cases i) auto
qed

lemma set_update_one: "set (update_one p f xs) \<subseteq> set xs \<union> f ` set xs"
  by (induction xs) auto

lemma valid_statuses_set:
  "set valid_statuses = {''draft'', ''review'', ''published'', ''archived''}"
  by (auto simp: valid_statuses_def DRAFT_def REVIEW_def PUBLISHED_def ARCHIVED_def)

section \<open>Creating a risk\<close>

lemma risk_score_bounds:
  fixes a b :: int
  assumes "1 \<le> a" "a \<le> 5" "1 \<le> b" "b \<le> 5"
  shows "1 \<le> a * b \<and> a * b \<le> 25"
proof
  have "1 * 1 \<le> a * b" using assms by (intro mult_mono) auto
  then show "1 \<le> a * b" by simp
  have "a * b \<le> 5 * 5" using assms by (intro mult_mono) auto
  then show "a * b \<le> 25" by simp
qed

text \<open>
  Claim C3. For every \<^verbatim>\<open>createRisk\<close> input: a body whose severity or likelihood is
  outside 1..5 is rejected with the validation error and the store is unchanged (no risk is
  created); otherwise exactly one risk is appended, with
  \<open>risk_score = severity * likelihood\<close>, a value in 1..25, status \<^verbatim>\<open>open\<close>, no
  linked documents, and the creation and update timestamps set to the two clock readings
  of the call.
\<close>

theorem create_risk_outcomes:
  "RiskCreate_valid rd =
     (rc_severity rd \<in> {1..5} \<and> rc_likelihood rd \<in> {1..5}) \<and>
   (\<not> RiskCreate_valid rd \<longrightarrow>
      create_risk s rd u rid now1 now2 = (Inl RequestValidationError, s)) \<and>
   (RiskCreate_valid rd \<longrightarrow>
      (\<exists>r. create_risk s rd u rid now1 now2 = (Inr r, s\<lparr>risks := risks s @ [r]\<rparr>) \<and>
           r_risk_score r = rc_severity rd * rc_likelihood rd \<and>
           1 \<le> r_risk_score r \<and> r_risk_score r \<le> 25 \<and>
           r_status r = ''open'' \<and> r_linked_docs r = [] \<and>
           r_created_at r = now1 \<and> r_updated_at r = now2))"
proof (intro conjI impI)
  show "RiskCreate_valid rd = (rc_severity rd \<in> {1..5} \<and> rc_likelihood rd \<in> {1..5})"
    by (auto simp: RiskCreate_valid_def)
next
  assume "\<not> RiskCreate_valid rd"
  then show "create_risk s rd u rid now1 now2 = (Inl RequestValidationError, s)"
    by (simp add: create_risk_def)
next
  assume v: "RiskCreate_valid rd"
  then have "1 \<le> rc_severity rd * rc_likelihood rd \<and> rc_severity rd * rc_likelihood rd \<le> 25"
    by (intro risk_score_bounds) (simp_all add: RiskCreate_valid_def)
  with v show "\<exists>r. create_risk s rd u rid now1 now2 = (Inr r, s\<lparr>risks := risks s @ [r]\<rparr>) \<and>
           r_risk_score r = rc_severity rd * rc_likelihood rd \<and>
           1 \<le> r_risk_score r \<and> r_risk_score r \<le> 25 \<and>
           r_status r = ''open'' \<and> r_linked_docs r = [] \<and>
           r_created_at r = now1 \<and> r_updated_at r = now2"
    by (simp add: create_risk_def Let_def)
qed

theorem create_risk_outcomes_witness:
  "RiskCreate_valid ex_risk_data \<and>
   create_risk (empty_store None) ex_risk_data ex_user ''r1''
       (2024, 1, 1, 0, 0, 0, 1) (2024, 1, 1, 0, 0, 0, 2) =
     (Inr ((ex_risk ''r1'' ''c1'' 4 3)
            \<lparr>r_title := ''Test Clinical Risk'',
             r_description := ''This is a test risk for clinical operations'',
             r_mitigation_plan := Some ''Implement additional safety protocols'',
             r_risk_score := 12,
             r_created_at := (2024, 1, 1, 0, 0, 0, 1), r_updated_at := (2024, 1, 1, 0, 0, 0, 2)\<rparr>),
      store_with_risks [(ex_risk ''r1'' ''c1'' 4 3)
            \<lparr>r_title := ''Test Clinical Risk'',
             r_description := ''This is a test risk for clinical operations'',
             r_mitigation_plan := Some ''Implement additional safety protocols'',
             r_risk_score := 12,
             r_created_at := (2024, 1, 1, 0, 0, 0, 1), r_updated_at := (2024, 1, 1, 0, 0, 0, 2)\<rparr>]) \<and>
   \<not> RiskCreate_valid (ex_risk_data\<lparr>rc_severity := 6\<rparr>) \<and>
   create_risk (empty_store None) (ex_risk_data\<lparr>rc_severity := 6\<rparr>) ex_user ''r1''
       (2024, 1, 1, 0, 0, 0, 1) (2024, 1, 1, 0, 0, 0, 2) =
     (Inl RequestValidationError, empty_store None) \<and>
   create_risk (empty_store None) (ex_risk_data\<lparr>rc_likelihood := 0\<rparr>) ex_user ''r1''
       (2024, 1, 1, 0, 0, 0, 1) (2024, 1, 1, 0, 0, 0, 2) =
     (Inl RequestValidationError, empty_store None)"
  using create_risk_outcomes [of ex_risk_data "empty_store None" ex_user "''r1''"
      "(2024, 1, 1, 0, 0, 0, 1)" "(2024, 1, 1, 0, 0, 0, 2)"]
    create_risk_outcomes [of "ex_risk_data\<lparr>rc_severity := 6\<rparr>" "empty_store None" ex_user "''r1''"
      "(2024, 1, 1, 0, 0, 0, 1)" "(2024, 1, 1, 0, 0, 0, 2)"]
    create_risk_outcomes [of "ex_risk_data\<lparr>rc_likelihood := 0\<rparr>" "empty_store None" ex_user "''r1''"
      "(2024, 1, 1, 0, 0, 0, 1)" "(2024, 1, 1, 0, 0, 0, 2)"]
  by (simp add: create_risk_def RiskCreate_valid_def ex_risk_data_def ex_risk_def ex_user_def
        store_with_risks_def empty_store_def Let_def)

section \<open>Setting the status of a document\<close>

text \<open>
  Claim C5. For every \<^verbatim>\<open>setStatus\<close> call: a target status that is not one of
  draft, review, published, archived fails with \<^verbatim>\<open>HTTPException(400)\<close>; a valid status
  for a document id that is not stored fails with \<^verbatim>\<open>HTTPException(404)\<close>; in both
  cases the store is returned unchanged. The status is checked first, so an invalid status
  for an unknown id is answered 400. On success the stored document has the new status and
  \<^verbatim>\<open>updated_at\<close> is the clock reading of the call.
\<close>

theorem update_document_status_outcomes:
  "set valid_statuses = {''draft'', ''review'', ''published'', ''archived''} \<and>
   (status \<notin> set valid_statuses \<longrightarrow>
      update_document_status s doc_id status u now1 now2 now3 =
        (Inl (HTTPException 400 ''Invalid status''), s)) \<and>
   (status \<in> set valid_statuses \<and> find (\<lambda>d. d_id d = doc_id) (documents s) = None \<longrightarrow>
      update_document_status s doc_id status u now1 now2 now3 =
        (Inl (HTTPException 404 ''Document not found''), s)) \<and>
   (status \<in> set valid_statuses \<and> find (\<lambda>d. d_id d = doc_id) (documents s) \<noteq> None \<longrightarrow>
      (\<exists>s' doc'. update_document_status s doc_id status u now1 now2 now3 =
                   (Inr (''Document status updated'', status), s') \<and>
                 find (\<lambda>d. d_id d = doc_id) (documents s') = Some doc' \<and>
                 d_status doc' = status \<and> d_updated_at doc' = now1))"
proof (intro conjI impI)
  show "set valid_statuses = {''draft'', ''review'', ''published'', ''archived''}"
    by (rule valid_statuses_set)
next
  assume "status \<notin> set valid_statuses"
  then show "update_document_status s doc_id status u now1 now2 now3 =
        (Inl (HTTPException 400 ''Invalid status''), s)"
    by (simp add: update_document_status_def)
next
  assume "status \<in> set valid_statuses \<and> find (\<lambda>d. d_id d = doc_id) (documents s) = None"
  then show "update_document_status s doc_id status u now1 now2 now3 =
        (Inl (HTTPException 404 ''Document not found''), s)"
    by (simp add: update_document_status_def)
next
  assume a: "status \<in> set valid_statuses \<and> find (\<lambda>d. d_id d = doc_id) (documents s) \<noteq> None"
  then obtain doc where doc: "find (\<lambda>d. d_id d = doc_id) (documents s) = Some doc"
    by auto
  define upd :: "document \<Rightarrow> document" where "upd = (\<lambda>d. d\<lparr>d_status := status, d_updated_at := now1\<rparr>)"
  define upd' :: "document \<Rightarrow> document" where "upd' = (if status = PUBLISHED
      then (\<lambda>d. (upd d)\<lparr>d_signature_hash :=
                 Some (create_document_hash (d_content doc) (u_id u) now2),
               d_signed_by := Some (u_id u), d_signed_at := Some now3\<rparr>)
      else upd)"
  have keeps: "\<And>x. d_id x = doc_id \<Longrightarrow> d_id (upd' x) = doc_id"
    by (simp add: upd'_def upd_def)
  have res: "update_document_status s doc_id status u now1 now2 now3 =
      (Inr (''Document status updated'', status),
       s\<lparr>documents := update_one (\<lambda>d. d_id d = doc_id) upd' (documents s)\<rparr>)"
    using a doc by (simp add: update_document_status_def upd'_def upd_def)
  have found: "find (\<lambda>d. d_id d = doc_id) (update_one (\<lambda>d. d_id d = doc_id) upd' (documents s))
      = Some (upd' doc)"
    using find_update_one [of "\<lambda>d. d_id d = doc_id" upd' "documents s"] keeps doc by simp
  have "d_status (upd' doc) = status \<and> d_updated_at (upd' doc) = now1"
    by (simp add: upd'_def upd_def)
  with res found show "\<exists>s' doc'. update_document_status s doc_id status u now1 now2 now3 =
                   (Inr (''Document status updated'', status), s') \<and>
                 find (\<lambda>d. d_id d = doc_id) (documents s') = Some doc' \<and>
                 d_status doc' = status \<and> d_updated_at doc' = now1"
    by simp
qed

theorem update_document_status_outcomes_witness:
  "update_document_status (store_with_docs [ex_doc]) ''d1'' ''bogus'' ex_user
       (2024, 1, 1, 0, 0, 0, 1) (2024, 1, 1, 0, 0, 0, 2) (2024, 1, 1, 0, 0, 0, 3) =
     (Inl (HTTPException 400 ''Invalid status''), store_with_docs [ex_doc]) \<and>
   update_document_status (store_with_docs [ex_doc]) ''d2'' ''review'' ex_user
       (2024, 1, 1, 0, 0, 0, 1) (2024, 1, 1, 0, 0, 0, 2) (2024, 1, 1, 0, 0, 0, 3) =
     (Inl (HTTPException 404 ''Document not found''), store_with_docs [ex_doc]) \<and>
   update_document_status (store_with_docs [ex_doc]) ''d1'' ''review'' ex_user
       (2024, 1, 1, 0, 0, 0, 1) (2024, 1, 1, 0, 0, 0, 2) (2024, 1, 1, 0, 0, 0, 3) =
     (Inr (''Document status updated'', ''review''),
      store_with_docs [ex_doc\<lparr>d_status := ''review'', d_updated_at := (2024, 1, 1, 0, 0, 0, 1)\<rparr>])"
  using update_document_status_outcomes [of "''bogus''" "store_with_docs [ex_doc]" "''d1''" ex_user
      "(2024, 1, 1, 0, 0, 0, 1)" "(2024, 1, 1, 0, 0, 0, 2)" "(2024, 1, 1, 0, 0, 0, 3)"]
    update_document_status_outcomes [of "''review''" "store_with_docs [ex_doc]" "''d2''" ex_user
      "(2024, 1, 1, 0, 0, 0, 1)" "(2024, 1, 1, 0, 0, 0, 2)" "(2024, 1, 1, 0, 0, 0, 3)"]
    update_document_status_outcomes [of "''review''" "store_with_docs [ex_doc]" "''d1''" ex_user
      "(2024, 1, 1, 0, 0, 0, 1)" "(2024, 1, 1, 0, 0, 0, 2)" "(2024, 1, 1, 0, 0, 0, 3)"]
  by (simp add: update_document_status_def store_with_docs_def empty_store_def ex_doc_def
        valid_statuses_def DRAFT_def REVIEW_def PUBLISHED_def ARCHIVED_def)

section \<open>Errors of the generation gateway\<close>

text \<open>
  Claim C7 says that a missing API credential and a failing call of the model give two
  distinct errors. In the code the \<^verbatim>\<open>HTTPException(500, "AI service not configured")\<close>
  is raised inside the \<^verbatim>\<open>try\<close> block and caught by
  \<^verbatim>\<open>except Exception\<close>: with no key (unset or empty) and with a failing call alike the
  caller receives \<^verbatim>\<open>HTTPException(500, "Document generation failed")\<close>.
\<close>

theorem generate_ai_document_errors:
  "generate_ai_document None send_message prompt jurisdiction category =
     Inl (HTTPException 500 ''Document generation failed'') \<and>
   generate_ai_document (Some []) send_message prompt jurisdiction category =
     Inl (HTTPException 500 ''Document generation failed'') \<and>
   generate_ai_document (Some ''sk-key'') (\<lambda>k m t. Inl LlmError) prompt jurisdiction category =
     Inl (HTTPException 500 ''Document generation failed'')"
  by (simp add: generate_ai_document_def generate_ai_document_body_def truthy_def)

section \<open>Listings\<close>

subsection \<open>The descending sort\<close>

lemma mset_insort_desc: "mset (insort_desc k x xs) = add_mset x (mset xs)"
  by (induction xs) simp_all

lemma mset_sort_desc: "mset (sort_desc k xs) = mset xs"
  unfolding sort_desc_def by (induction xs) (simp_all add: mset_insort_desc)

lemma set_sort_desc: "set (sort_desc k xs) = set xs"
  using mset_sort_desc [of k xs] by (metis set_mset_mset)

lemma length_sort_desc: "length (sort_desc k xs) = length xs"
  using mset_sort_desc [of k xs] by (metis size_mset)

lemma set_insort_desc: "set (insort_desc k x xs) = insert x (set xs)"
  using mset_insort_desc [of k x xs] by (metis set_mset_mset set_mset_add_mset_insert)

lemma descending_insort_desc:
  "sorted_wrt (\<lambda>a b. k b \<le> k a) xs \<Longrightarrow> sorted_wrt (\<lambda>a b. k b \<le> k a) (insort_desc k x xs)"
proof (induction xs)
  case Nil
  then show ?case by simp
next
  case (Cons y ys)
  show ?case
  proof (cases "k y \<le> k x")
    case True
    with Cons.prems show ?thesis by (auto intro: order_trans)
  next
    case False
    then have "k x \<le> k y" by simp
    with Cons False show ?thesis by (auto simp: set_insort_desc)
  qed
qed

lemma descending_sort_desc: "sorted_wrt (\<lambda>a b. k b \<le> k a) (sort_desc k xs)"
  unfolding sort_desc_def by (induction xs) (simp_all add: descending_insort_desc)

lemma descending_take_drop:
  assumes "sorted_wrt (\<lambda>a b. k b \<le> k a) xs" "a \<in> set (drop n xs)" "b \<in> set (take n xs)"
  shows "k a \<le> k b"
proof -
  have "sorted_wrt (\<lambda>a b. k b \<le> k a) (take n xs @ drop n xs)" using assms(1) by simp
  then show ?thesis using assms(2,3) unfolding sorted_wrt_append by blast
qed

subsection \<open>Listing risks\<close>

text \<open>
  Claim C4 says that \<^verbatim>\<open>listRisks\<close> returns exactly the risks of the clinic scope, in
  non-increasing order of \<open>risk_score\<close>. The order holds; "exactly the risks" does not,
  because of \<^verbatim>\<open>to_list(100)\<close>: with 101 risks in the scope, 100 are returned.
\<close>

theorem get_risks_not_all_counterexample:
  "length (filter (\<lambda>r. r_clinic_id r = ''c1'')
      (risks (store_with_risks (map (\<lambda>i. ex_risk (''r'' @ zpad 3 i) ''c1'' 4 3) [0..<101])))) = 101 \<and>
   length (get_risks (store_with_risks (map (\<lambda>i. ex_risk (''r'' @ zpad 3 i) ''c1'' 4 3) [0..<101]))
      (Some ''c1'') ex_user) = 100"
  by (simp add: get_risks_def store_with_risks_def empty_store_def clinic_query_def truthy_def
        matches_def length_sort_desc filter_map comp_def ex_risk_def)

text \<open>
  Claim C4, amended. \<^verbatim>\<open>listRisks\<close> returns the first 100 entries of the risks of the
  clinic scope arranged in non-increasing order of \<open>risk_score\<close>: the result is in
  non-increasing order, holds only risks of the scope (each as often as it is stored), has
  \<open>min 100 n\<close> entries for \<open>n\<close> risks in the scope, is all of them when there are at most
  100, and no omitted risk has a higher score than a returned one. Stored scores 20, 5, 15
  are listed as 20, 15, 5.
\<close>

theorem get_risks_sorted_capped:
  "get_risks s clinic_id u =
     take 100 (sort_desc r_risk_score
       (filter (\<lambda>r. matches (clinic_query clinic_id u) (r_clinic_id r)) (risks s))) \<and>
   sorted_wrt (\<lambda>a b. r_risk_score b \<le> r_risk_score a) (get_risks s clinic_id u) \<and>
   mset (get_risks s clinic_id u) \<subseteq>#
     mset (filter (\<lambda>r. matches (clinic_query clinic_id u) (r_clinic_id r)) (risks s)) \<and>
   length (get_risks s clinic_id u) =
     min 100 (length (filter (\<lambda>r. matches (clinic_query clinic_id u) (r_clinic_id r)) (risks s))) \<and>
   (length (filter (\<lambda>r. matches (clinic_query clinic_id u) (r_clinic_id r)) (risks s)) \<le> 100 \<longrightarrow>
      mset (get_risks s clinic_id u) =
        mset (filter (\<lambda>r. matches (clinic_query clinic_id u) (r_clinic_id r)) (risks s))) \<and>
   (\<forall>a b. a \<in># mset (filter (\<lambda>r. matches (clinic_query clinic_id u) (r_clinic_id r)) (risks s))
              - mset (get_risks s clinic_id u) \<and> b \<in> set (get_risks s clinic_id u)
          \<longrightarrow> r_risk_score a \<le> r_risk_score b)"
proof -
  define scope where "scope = filter (\<lambda>r. matches (clinic_query clinic_id u) (r_clinic_id r)) (risks s)"
  define L where "L = sort_desc r_risk_score scope"
  have res: "get_risks s clinic_id u = take 100 L"
    by (simp add: get_risks_def L_def scope_def)
  have mL: "mset L = mset scope" by (simp add: L_def mset_sort_desc)
  have sL: "sorted_wrt (\<lambda>a b. r_risk_score b \<le> r_risk_score a) L"
    by (simp add: L_def descending_sort_desc)
  have split: "mset (take 100 L) + mset (drop 100 L) = mset scope"
    using mL by (metis append_take_drop_id mset_append)
  have c2: "sorted_wrt (\<lambda>a b. r_risk_score b \<le> r_risk_score a) (take 100 L)"
    using sL by (rule sorted_wrt_take)
  have c3: "mset (take 100 L) \<subseteq># mset scope"
    using split by (metis mset_subset_eq_add_left)
  have c4: "length (take 100 L) = min 100 (length scope)"
    by (simp add: L_def length_sort_desc min.commute)
  have c5: "length scope \<le> 100 \<longrightarrow> mset (take 100 L) = mset scope"
    using mL by (simp add: L_def length_sort_desc)
  have diff: "mset scope - mset (take 100 L) = mset (drop 100 L)"
    using split by (metis add_diff_cancel_left')
  have c6: "\<forall>a b. a \<in># mset scope - mset (take 100 L) \<and> b \<in> set (take 100 L)
      \<longrightarrow> r_risk_score a \<le> r_risk_score b"
    unfolding diff using descending_take_drop [OF sL] by auto
  show ?thesis
    unfolding res scope_def [symmetric] L_def [symmetric]
    using c2 c3 c4 c5 c6 by blast
qed

theorem get_risks_sorted_capped_witness:
  "length (filter (\<lambda>r. matches (clinic_query (Some ''c1'') ex_user) (r_clinic_id r))
      (risks (store_with_risks [ex_risk ''r1'' ''c1'' 4 5, ex_risk ''r2'' ''c2'' 5 5,
         ex_risk ''r3'' ''c1'' 1 5, ex_risk ''r4'' ''c1'' 3 5]))) \<le> 100 \<and>
   mset (get_risks (store_with_risks [ex_risk ''r1'' ''c1'' 4 5, ex_risk ''r2'' ''c2'' 5 5,
         ex_risk ''r3'' ''c1'' 1 5, ex_risk ''r4'' ''c1'' 3 5]) (Some ''c1'') ex_user) =
     mset [ex_risk ''r1'' ''c1'' 4 5, ex_risk ''r3'' ''c1'' 1 5, ex_risk ''r4'' ''c1'' 3 5] \<and>
   map r_risk_score (get_risks (store_with_risks [ex_risk ''r1'' ''c1'' 4 5,
         ex_risk ''r2'' ''c2'' 5 5, ex_risk ''r3'' ''c1'' 1 5, ex_risk ''r4'' ''c1'' 3 5])
       (Some ''c1'') ex_user) = [20, 15, 5]"
proof -
  let ?S = "store_with_risks [ex_risk ''r1'' ''c1'' 4 5, ex_risk ''r2'' ''c2'' 5 5,
         ex_risk ''r3'' ''c1'' 1 5, ex_risk ''r4'' ''c1'' 3 5]"
  let ?scope = "filter (\<lambda>r. matches (clinic_query (Some ''c1'') ex_user) (r_clinic_id r)) (risks ?S)"
  have scope: "?scope = [ex_risk ''r1'' ''c1'' 4 5, ex_risk ''r3'' ''c1'' 1 5, ex_risk ''r4'' ''c1'' 3 5]"
    by (simp add: store_with_risks_def empty_store_def clinic_query_def truthy_def matches_def
          ex_risk_def)
  then have small: "length ?scope \<le> 100" by simp
  have all: "mset (get_risks ?S (Some ''c1'') ex_user) = mset ?scope"
    using get_risks_sorted_capped [where s = ?S and clinic_id = "Some ''c1''" and u = ex_user] small
    by blast
  have "get_risks ?S (Some ''c1'') ex_user = take 100 (sort_desc r_risk_score ?scope)"
    using get_risks_sorted_capped [where s = ?S and clinic_id = "Some ''c1''" and u = ex_user]
    by blast
  then have order: "map r_risk_score (get_risks ?S (Some ''c1'') ex_user) = [20, 15, 5]"
    unfolding scope by (simp add: sort_desc_def ex_risk_def)
  show ?thesis using small all order unfolding scope by simp
qed

subsection \<open>The cap of 100 entries\<close>

text \<open>
  Claim C9. Every listing (the clinics of a user, documents, risks) is the first 100 entries
  of what its query matches, in the order of the query (insertion order for clinics,
  \<^verbatim>\<open>created_at\<close> descending for documents, \<^verbatim>\<open>risk_score\<close> descending for risks):
  it has \<open>min 100 n\<close> entries when \<open>n\<close> match, never more than 100, and no error is
  raised for the rest.
\<close>

theorem listings_capped:
  "get_user_clinics s u =
     take 100 (filter (\<lambda>c. c_owner_id c = u_id u \<or> Some (c_id c) = u_clinic_id u) (clinics s)) \<and>
   length (get_user_clinics s u) =
     min 100 (length (filter (\<lambda>c. c_owner_id c = u_id u \<or> Some (c_id c) = u_clinic_id u)
                        (clinics s))) \<and>
   get_documents s clinic_id status category u =
     take 100 (sort_desc d_created_at
       (filter (\<lambda>d. matches (clinic_query clinic_id u) (d_clinic_id d) \<and>
                     matches (if truthy status then status else None) (d_status d) \<and>
                     matches (if truthy category then category else None) (d_category d))
          (documents s))) \<and>
   length (get_documents s clinic_id status category u) =
     min 100 (length
       (filter (\<lambda>d. matches (clinic_query clinic_id u) (d_clinic_id d) \<and>
                     matches (if truthy status then status else None) (d_status d) \<and>
                     matches (if truthy category then category else None) (d_category d))
          (documents s))) \<and>
   get_risks s clinic_id u =
     take 100 (sort_desc r_risk_score
       (filter (\<lambda>r. matches (clinic_query clinic_id u) (r_clinic_id r)) (risks s))) \<and>
   length (get_risks s clinic_id u) =
     min 100 (length (filter (\<lambda>r. matches (clinic_query clinic_id u) (r_clinic_id r)) (risks s))) \<and>
   length (get_user_clinics s u) \<le> 100 \<and>
   length (get_documents s clinic_id status category u) \<le> 100 \<and>
   length (get_risks s clinic_id u) \<le> 100"
  by (simp add: get_user_clinics_def get_documents_def get_risks_def Let_def length_sort_desc
        min.commute)

theorem listings_capped_witness:
  "length (clinics (store_with_clinics (map (\<lambda>i. ex_clinic (''c'' @ zpad 3 i) ''U'') [0..<101]))) = 101 \<and>
   length (get_user_clinics
      (store_with_clinics (map (\<lambda>i. ex_clinic (''c'' @ zpad 3 i) ''U'') [0..<101])) ex_user) = 100 \<and>
   length (documents (store_with_docs (map (\<lambda>i. ex_doc\<lparr>d_id := ''d'' @ zpad 3 i\<rparr>) [0..<101]))) = 101 \<and>
   length (get_documents
      (store_with_docs (map (\<lambda>i. ex_doc\<lparr>d_id := ''d'' @ zpad 3 i\<rparr>) [0..<101]))
      (Some ''c1'') None None ex_user) = 100 \<and>
   length (risks (store_with_risks (map (\<lambda>i. ex_risk (''r'' @ zpad 3 i) ''c1'' 4 3) [0..<101]))) = 101 \<and>
   length (get_risks
      (store_with_risks (map (\<lambda>i. ex_risk (''r'' @ zpad 3 i) ''c1'' 4 3) [0..<101]))
      (Some ''c1'') ex_user) = 100"
proof -
  let ?C = "store_with_clinics (map (\<lambda>i. ex_clinic (''c'' @ zpad 3 i) ''U'') [0..<101])"
  let ?D = "store_with_docs (map (\<lambda>i. ex_doc\<lparr>d_id := ''d'' @ zpad 3 i\<rparr>) [0..<101])"
  let ?R = "store_with_risks (map (\<lambda>i. ex_risk (''r'' @ zpad 3 i) ''c1'' 4 3) [0..<101])"
  have "length (get_user_clinics ?C ex_user) =
      min 100 (length (filter (\<lambda>c. c_owner_id c = u_id ex_user \<or> Some (c_id c) = u_clinic_id ex_user)
                        (clinics ?C)))"
    using listings_capped [where s = ?C and u = ex_user] by blast
  then have c: "length (get_user_clinics ?C ex_user) = 100"
    by (simp add: store_with_clinics_def empty_store_def filter_map comp_def ex_clinic_def
          ex_user_def)
  have "length (get_documents ?D (Some ''c1'') None None ex_user) =
      min 100 (length
       (filter (\<lambda>d. matches (clinic_query (Some ''c1'') ex_user) (d_clinic_id d) \<and>
                     matches (if truthy None then None else None) (d_status d) \<and>
                     matches (if truthy None then None else None) (d_category d))
          (documents ?D)))"
    using listings_capped [where s = ?D and u = ex_user and clinic_id = "Some ''c1''"
        and status = None and category = None] by blast
  then have d: "length (get_documents ?D (Some ''c1'') None None ex_user) = 100"
    by (simp add: store_with_docs_def empty_store_def filter_map comp_def ex_doc_def
          clinic_query_def truthy_def matches_def)
  have "length (get_risks ?R (Some ''c1'') ex_user) =
      min 100 (length (filter (\<lambda>r. matches (clinic_query (Some ''c1'') ex_user) (r_clinic_id r))
                        (risks ?R)))"
    using listings_capped [where s = ?R and u = ex_user and clinic_id = "Some ''c1''"] by blast
  then have r: "length (get_risks ?R (Some ''c1'') ex_user) = 100"
    by (simp add: store_with_risks_def empty_store_def filter_map comp_def ex_risk_def
          clinic_query_def truthy_def matches_def)
  show ?thesis using c d r
    by (simp add: store_with_clinics_def store_with_docs_def store_with_risks_def empty_store_def)
qed

subsection \<open>Users without a clinic\<close>

text \<open>
  Claim C10. For a user whose clinic affiliation is unset (or empty), listing risks or
  documents without a clinic filter puts no \<^verbatim>\<open>clinic_id\<close> into the query: the
  listing is taken over the entries of every clinic (for documents, those that pass the
  status and category filters, if given), up to the cap of 100.
\<close>

theorem unaffiliated_user_lists_every_clinic:
  assumes "\<not> truthy (u_clinic_id u)" and "\<not> truthy clinic_id"
  shows "clinic_query clinic_id u = None \<and>
     get_risks s clinic_id u = take 100 (sort_desc r_risk_score (risks s)) \<and>
     get_documents s clinic_id status category u =
       take 100 (sort_desc d_created_at
         (filter (\<lambda>d. matches (if truthy status then status else None) (d_status d) \<and>
                       matches (if truthy category then category else None) (d_category d))
            (documents s))) \<and>
     get_documents s clinic_id None None u = take 100 (sort_desc d_created_at (documents s))"
  using assms
  by (simp add: clinic_query_def get_risks_def get_documents_def matches_def truthy_def Let_def)

theorem unaffiliated_user_lists_every_clinic_witness:
  "\<not> truthy (u_clinic_id ex_user) \<and> \<not> truthy None \<and>
   map r_clinic_id (get_risks (store_with_risks [ex_risk ''r1'' ''c1'' 2 3,
        ex_risk ''r2'' ''c2'' 5 5, ex_risk ''r3'' ''c3'' 1 1]) None ex_user) =
     [''c2'', ''c1'', ''c3''] \<and>
   map d_clinic_id (get_documents (store_with_docs [ex_doc,
        ex_doc\<lparr>d_id := ''d2'', d_clinic_id := ''c2'',
               d_created_at := (2024, 1, 2, 0, 0, 0, 0)\<rparr>]) None None None ex_user) =
     [''c2'', ''c1'']"
proof -
  let ?R = "store_with_risks [ex_risk ''r1'' ''c1'' 2 3, ex_risk ''r2'' ''c2'' 5 5,
        ex_risk ''r3'' ''c3'' 1 1]"
  let ?D = "store_with_docs [ex_doc, ex_doc\<lparr>d_id := ''d2'', d_clinic_id := ''c2'',
               d_created_at := (2024, 1, 2, 0, 0, 0, 0)\<rparr>]"
  have p1: "\<not> truthy (u_clinic_id ex_user)" by (simp add: truthy_def ex_user_def)
  have p2: "\<not> truthy None" by (simp add: truthy_def)
  have "get_risks ?R None ex_user = take 100 (sort_desc r_risk_score (risks ?R))"
    using unaffiliated_user_lists_every_clinic [OF p1 p2, where s = ?R] by blast
  then have r: "map r_clinic_id (get_risks ?R None ex_user) = [''c2'', ''c1'', ''c3'']"
    by (simp add: store_with_risks_def empty_store_def sort_desc_def ex_risk_def)
  have "get_documents ?D None None None ex_user = take 100 (sort_desc d_created_at (documents ?D))"
    using unaffiliated_user_lists_every_clinic [OF p1 p2, where s = ?D] by blast
  then have d: "map d_clinic_id (get_documents ?D None None None ex_user) = [''c2'', ''c1'']"
    by (simp add: store_with_docs_def empty_store_def sort_desc_def ex_doc_def)
  show ?thesis using p1 p2 r d by simp
qed

section \<open>Documents under sequences of requests\<close>

lemma update_document_status_cases:
  assumes "update_document_status s doc_id status u now1 now2 now3 = (res, s')"
  shows "(s' = s \<and> (\<exists>e. res = Inl e)) \<or>
     (\<exists>f doc. find (\<lambda>d. d_id d = doc_id) (documents s) = Some doc \<and>
        s' = s\<lparr>documents := update_one (\<lambda>d. d_id d = doc_id) f (documents s)\<rparr> \<and>
        res = Inr (''Document status updated'', status) \<and>
        (\<forall>d. fixed_fields (f d) = fixed_fields d \<and> d_status (f d) = status \<and>
             d_updated_at (f d) = now1 \<and>
             (if status = PUBLISHED
              then d_signature_hash (f d) =
                     Some (create_document_hash (d_content doc) (u_id u) now2) \<and>
                   d_signed_by (f d) = Some (u_id u) \<and> d_signed_at (f d) = Some now3
              else d_signature_hash (f d) = d_signature_hash d \<and>
                   d_signed_by (f d) = d_signed_by d \<and> d_signed_at (f d) = d_signed_at d)))"
proof (cases "status \<in> set valid_statuses")
  case False
  with assms show ?thesis by (auto simp: update_document_status_def)
next
  case valid: True
  show ?thesis
  proof (cases "find (\<lambda>d. d_id d = doc_id) (documents s)")
    case None
    with valid assms show ?thesis by (auto simp: update_document_status_def)
  next
    case (Some doc)
    define upd :: "document \<Rightarrow> document"
      where "upd = (\<lambda>d. d\<lparr>d_status := status, d_updated_at := now1\<rparr>)"
    define f :: "document \<Rightarrow> document" where "f = (if status = PUBLISHED
      then (\<lambda>d. (upd d)\<lparr>d_signature_hash :=
                 Some (create_document_hash (d_content doc) (u_id u) now2),
               d_signed_by := Some (u_id u), d_signed_at := Some now3\<rparr>)
      else upd)"
    have "update_document_status s doc_id status u now1 now2 now3 =
        (Inr (''Document status updated'', status),
         s\<lparr>documents := update_one (\<lambda>d. d_id d = doc_id) f (documents s)\<rparr>)"
      using valid Some by (simp add: update_document_status_def f_def upd_def)
    with assms have r: "res = Inr (''Document status updated'', status)"
      and s': "s' = s\<lparr>documents := update_one (\<lambda>d. d_id d = doc_id) f (documents s)\<rparr>"
      by simp_all
    have props: "\<forall>d. fixed_fields (f d) = fixed_fields d \<and> d_status (f d) = status \<and>
             d_updated_at (f d) = now1 \<and>
             (if status = PUBLISHED
              then d_signature_hash (f d) =
                     Some (create_document_hash (d_content doc) (u_id u) now2) \<and>
                   d_signed_by (f d) = Some (u_id u) \<and> d_signed_at (f d) = Some now3
              else d_signature_hash (f d) = d_signature_hash d \<and>
                   d_signed_by (f d) = d_signed_by d \<and> d_signed_at (f d) = d_signed_at d)"
      by (simp add: f_def upd_def fixed_fields_def)
    from Some r s' props show ?thesis by blast
  qed
qed

text \<open>What one request does to the collection of documents.\<close>

lemma step_documents:
  "documents (step s op) = documents s \<or>
   (\<exists>d. documents (step s op) = documents s @ [d] \<and> d_status d = DRAFT \<and> unsigned d) \<or>
   (\<exists>doc_id status f. documents (step s op) = update_one (\<lambda>d. d_id d = doc_id) f (documents s) \<and>
      (\<forall>d. fixed_fields (f d) = fixed_fields d \<and> d_status (f d) = status \<and>
           (if status = PUBLISHED then signed (f d)
            else d_signature_hash (f d) = d_signature_hash d \<and>
                 d_signed_by (f d) = d_signed_by d \<and> d_signed_at (f d) = d_signed_at d)))"
proof (cases op)
  case (Register user_data user_id hashed_password now)
  then show ?thesis by (simp add: register_def Let_def split: option.splits)
next
  case (CreateClinic clinic_data current_user clinic_id clinic_slug now)
  then show ?thesis by (simp add: create_clinic_def Let_def)
next
  case (GenerateDocument send_message request current_user doc_id now1 now2)
  then show ?thesis
    by (simp add: generate_document_def Let_def unsigned_def split: option.splits sum.splits)
next
  case (UpdateDocumentStatus doc_id status current_user now1 now2 now3)
  obtain res s' where r: "update_document_status s doc_id status current_user now1 now2 now3 = (res, s')"
    by (cases "update_document_status s doc_id status current_user now1 now2 now3") auto
  from update_document_status_cases [OF r] show ?thesis
  proof
    assume "s' = s \<and> (\<exists>e. res = Inl e)"
    with r UpdateDocumentStatus show ?thesis by simp
  next
    assume "\<exists>f doc. find (\<lambda>d. d_id d = doc_id) (documents s) = Some doc \<and>
        s' = s\<lparr>documents := update_one (\<lambda>d. d_id d = doc_id) f (documents s)\<rparr> \<and>
        res = Inr (''Document status updated'', status) \<and>
        (\<forall>d. fixed_fields (f d) = fixed_fields d \<and> d_status (f d) = status \<and>
             d_updated_at (f d) = now1 \<and>
             (if status = PUBLISHED
              then d_signature_hash (f d) =
                     Some (create_document_hash (d_content doc) (u_id current_user) now2) \<and>
                   d_signed_by (f d) = Some (u_id current_user) \<and> d_signed_at (f d) = Some now3
              else d_signature_hash (f d) = d_signature_hash d \<and>
                   d_signed_by (f d) = d_signed_by d \<and> d_signed_at (f d) = d_signed_at d))"
    then obtain f and doc :: document where
      s': "s' = s\<lparr>documents := update_one (\<lambda>d. d_id d = doc_id) f (documents s)\<rparr>" and
      p: "\<forall>d. fixed_fields (f d) = fixed_fields d \<and> d_status (f d) = status \<and>
             d_updated_at (f d) = now1 \<and>
             (if status = PUBLISHED
              then d_signature_hash (f d) =
                     Some (create_document_hash (d_content doc) (u_id current_user) now2) \<and>
                   d_signed_by (f d) = Some (u_id current_user) \<and> d_signed_at (f d) = Some now3
              else d_signature_hash (f d) = d_signature_hash d \<and>
                   d_signed_by (f d) = d_signed_by d \<and> d_signed_at (f d) = d_signed_at d)"
      by blast
    have d: "documents (step s op) = update_one (\<lambda>d. d_id d = doc_id) f (documents s)"
      using r s' UpdateDocumentStatus by simp
    have "\<forall>d. fixed_fields (f d) = fixed_fields d \<and> d_status (f d) = status \<and>
           (if status = PUBLISHED then signed (f d)
            else d_signature_hash (f d) = d_signature_hash d \<and>
                 d_signed_by (f d) = d_signed_by d \<and> d_signed_at (f d) = d_signed_at d)"
      using p by (auto simp: signed_def)
    with d show ?thesis by blast
  qed
next
  case (AuditDocument send_message doc_id current_user audit_id now)
  then show ?thesis
    by (simp add: audit_document_endpoint_def Let_def split: option.splits sum.splits)
next
  case (CreateRisk risk_data current_user risk_id now1 now2)
  then show ?thesis by (simp add: create_risk_def Let_def)
next
  case (UploadDocument upload clinic_id category jurisdiction current_user extracted doc_id now1 now2)
  then show ?thesis
    by (simp add: upload_document_def Let_def unsigned_def split: sum.splits)
next
  case (SaveSettings key io_ok)
  then show ?thesis by (simp add: save_settings_def)
qed

lemma step_signature_ok:
  assumes "list_all signature_ok (documents s)"
  shows "list_all signature_ok (documents (step s op))"
proof -
  from step_documents [of s op] show ?thesis
  proof (elim disjE exE conjE)
    assume "documents (step s op) = documents s"
    with assms show ?thesis by simp
  next
    fix d
    assume "documents (step s op) = documents s @ [d]" "d_status d = DRAFT" "unsigned d"
    with assms show ?thesis
      by (simp add: signature_ok_def DRAFT_def PUBLISHED_def)
  next
    fix doc_id status f
    assume d: "documents (step s op) = update_one (\<lambda>d. d_id d = doc_id) f (documents s)"
      and p: "\<forall>d. fixed_fields (f d) = fixed_fields d \<and> d_status (f d) = status \<and>
           (if status = PUBLISHED then signed (f d)
            else d_signature_hash (f d) = d_signature_hash d \<and>
                 d_signed_by (f d) = d_signed_by d \<and> d_signed_at (f d) = d_signed_at d)"
    have keep: "signature_ok (f x)" if "signature_ok x" for x
    proof (cases "status = PUBLISHED")
      case True
      with p show ?thesis by (simp add: signature_ok_def)
    next
      case False
      with p have "d_status (f x) \<noteq> PUBLISHED" "signed (f x) = signed x" "unsigned (f x) = unsigned x"
        by (simp_all add: signed_def unsigned_def)
      with that show ?thesis by (simp add: signature_ok_def)
    qed
    have "\<forall>x \<in> set (update_one (\<lambda>d. d_id d = doc_id) f (documents s)). signature_ok x"
      using set_update_one [of "\<lambda>d. d_id d = doc_id" f "documents s"] assms keep
      by (auto simp: list_all_iff)
    with d show ?thesis by (simp add: list_all_iff)
  qed
qed

lemma run_signature_ok:
  "list_all signature_ok (documents s) \<Longrightarrow> list_all signature_ok (documents (run s ops))"
  unfolding run_def by (induction ops arbitrary: s) (simp_all add: step_signature_ok)

lemma step_fixed_fields:
  "length (documents s) \<le> length (documents (step s op)) \<and>
   take (length (documents s)) (map fixed_fields (documents (step s op))) =
     map fixed_fields (documents s)"
proof -
  from step_documents [of s op] show ?thesis
  proof (elim disjE exE conjE)
    assume "documents (step s op) = documents s"
    then show ?thesis by simp
  next
    fix d
    assume "documents (step s op) = documents s @ [d]"
    then show ?thesis by simp
  next
    fix doc_id status f
    assume d: "documents (step s op) = update_one (\<lambda>d. d_id d = doc_id) f (documents s)"
      and p: "\<forall>d. fixed_fields (f d) = fixed_fields d \<and> d_status (f d) = status \<and>
           (if status = PUBLISHED then signed (f d)
            else d_signature_hash (f d) = d_signature_hash d \<and>
                 d_signed_by (f d) = d_signed_by d \<and> d_signed_at (f d) = d_signed_at d)"
    have "map fixed_fields (update_one (\<lambda>d. d_id d = doc_id) f (documents s)) =
        map fixed_fields (documents s)"
      using p by (intro map_update_one) simp
    with d show ?thesis by (simp add: length_update_one)
  qed
qed

lemma run_fixed_fields:
  "length (documents s) \<le> length (documents (run s ops)) \<and>
   take (length (documents s)) (map fixed_fields (documents (run s ops))) =
     map fixed_fields (documents s)"
proof (induction ops arbitrary: s)
  case Nil
  then show ?case by (simp add: run_def)
next
  case (Cons op ops)
  let ?s1 = "step s op"
  let ?n = "length (documents s)"
  have r: "run s (op # ops) = run ?s1 ops" by (simp add: run_def)
  from Cons [of ?s1] have len1: "length (documents ?s1) \<le> length (documents (run ?s1 ops))"
    and tk1: "take (length (documents ?s1)) (map fixed_fields (documents (run ?s1 ops))) =
        map fixed_fields (documents ?s1)" by simp_all
  from step_fixed_fields [of s op] have len0: "?n \<le> length (documents ?s1)"
    and tk0: "take ?n (map fixed_fields (documents ?s1)) = map fixed_fields (documents s)"
    by simp_all
  have "take ?n (map fixed_fields (documents (run ?s1 ops))) =
      take ?n (take (length (documents ?s1)) (map fixed_fields (documents (run ?s1 ops))))"
    using len0 by (simp add: min_absorb1)
  also have "\<dots> = map fixed_fields (documents s)" using tk1 tk0 by simp
  finally show ?case using len0 len1 r by simp
qed

lemma nth_update_one_cases:
  "i < length xs \<Longrightarrow> update_one p f xs ! i = xs ! i \<or> update_one p f xs ! i = f (xs ! i)"
proof (induction xs arbitrary: i)
  case Nil
  then show ?case by simp
next
  case (Cons x xs)
  then show ?case by (cases i) auto
qed

lemma step_keeps_signed:
  assumes "i < length (documents s)" and "signed (documents s ! i)"
  shows "i < length (documents (step s op)) \<and> signed (documents (step s op) ! i)"
proof -
  from step_documents [of s op] show ?thesis
  proof (elim disjE exE conjE)
    assume "documents (step s op) = documents s"
    with assms show ?thesis by simp
  next
    fix d
    assume "documents (step s op) = documents s @ [d]"
    with assms show ?thesis by (simp add: nth_append)
  next
    fix doc_id status f
    assume d: "documents (step s op) = update_one (\<lambda>d. d_id d = doc_id) f (documents s)"
      and p: "\<forall>d. fixed_fields (f d) = fixed_fields d \<and> d_status (f d) = status \<and>
           (if status = PUBLISHED then signed (f d)
            else d_signature_hash (f d) = d_signature_hash d \<and>
                 d_signed_by (f d) = d_signed_by d \<and> d_signed_at (f d) = d_signed_at d)"
    have "signed (f (documents s ! i))"
      using p [rule_format, of "documents s ! i"] assms(2)
      by (cases "status = PUBLISHED") (simp_all add: signed_def)
    moreover have "documents (step s op) ! i = documents s ! i \<or>
        documents (step s op) ! i = f (documents s ! i)"
      unfolding d using assms(1) by (rule nth_update_one_cases)
    ultimately show ?thesis using assms d by (auto simp: length_update_one)
  qed
qed

lemma run_keeps_signed:
  "i < length (documents s) \<Longrightarrow> signed (documents s ! i) \<Longrightarrow>
   i < length (documents (run s ops)) \<and> signed (documents (run s ops) ! i)"
proof (induction ops arbitrary: s)
  case Nil
  then show ?case by (simp add: run_def)
next
  case (Cons op ops)
  from step_keeps_signed [OF Cons.prems, of op]
  have "i < length (documents (step s op))" "signed (documents (step s op) ! i)" by simp_all
  from Cons.IH [OF this] show ?case by (simp add: run_def)
qed

text \<open>The signature fields follow the record of publications.\<close>

lemma mark_one_no_match: "find p xs = None \<Longrightarrow> mark_one p xs bs = bs"
proof (induction xs arbitrary: bs)
  case Nil
  then show ?case by simp
next
  case (Cons x xs)
  then show ?case by (cases bs) (auto split: if_splits)
qed

lemma signed_update_one_publish:
  assumes "\<And>d. signed (f d)"
  shows "map signed (update_one p f xs) = mark_one p xs (map signed xs)"
  using assms by (induction xs) auto

lemma update_document_status_flags:
  "map signed (documents (snd (update_document_status s doc_id status u now1 now2 now3))) =
     (if status = PUBLISHED
      then mark_one (\<lambda>d. d_id d = doc_id) (documents s) (map signed (documents s))
      else map signed (documents s)) \<and>
   length (documents (snd (update_document_status s doc_id status u now1 now2 now3))) =
     length (documents s)"
proof -
  obtain res s' where r: "update_document_status s doc_id status u now1 now2 now3 = (res, s')"
    by (cases "update_document_status s doc_id status u now1 now2 now3") auto
  show ?thesis
  proof (cases "find (\<lambda>d. d_id d = doc_id) (documents s)")
    case None
    then have "s' = s" using r by (auto simp: update_document_status_def split: if_splits)
    with r None show ?thesis by (simp add: mark_one_no_match)
  next
    case (Some doc)
    from update_document_status_cases [OF r] show ?thesis
    proof
      assume "s' = s \<and> (\<exists>e. res = Inl e)"
      then have "status \<notin> set valid_statuses"
        using r Some by (auto simp: update_document_status_def Let_def split: if_splits)
      then have "status \<noteq> PUBLISHED" by (auto simp: valid_statuses_def)
      with \<open>s' = s \<and> (\<exists>e. res = Inl e)\<close> r show ?thesis by simp
    next
      assume "\<exists>f doc. find (\<lambda>d. d_id d = doc_id) (documents s) = Some doc \<and>
        s' = s\<lparr>documents := update_one (\<lambda>d. d_id d = doc_id) f (documents s)\<rparr> \<and>
        res = Inr (''Document status updated'', status) \<and>
        (\<forall>d. fixed_fields (f d) = fixed_fields d \<and> d_status (f d) = status \<and>
             d_updated_at (f d) = now1 \<and>
             (if status = PUBLISHED
              then d_signature_hash (f d) =
                     Some (create_document_hash (d_content doc) (u_id u) now2) \<and>
                   d_signed_by (f d) = Some (u_id u) \<and> d_signed_at (f d) = Some now3
              else d_signature_hash (f d) = d_signature_hash d \<and>
                   d_signed_by (f d) = d_signed_by d \<and> d_signed_at (f d) = d_signed_at d))"
      then obtain f where
        s': "s' = s\<lparr>documents := update_one (\<lambda>d. d_id d = doc_id) f (documents s)\<rparr>" and
        p: "\<forall>d. (if status = PUBLISHED then signed (f d) else signed (f d) = signed d)"
        by (auto simp: signed_def)
      show ?thesis
      proof (cases "status = PUBLISHED")
        case True
        with p have "\<And>d. signed (f d)" by simp
        then show ?thesis using r s' True
          by (simp add: signed_update_one_publish length_update_one)
      next
        case False
        with p have "\<And>d. signed (f d) = signed d" by simp
        then show ?thesis using r s' False
          by (simp add: map_update_one length_update_one)
      qed
    qed
  qed
qed

lemma step_flags:
  "map signed (documents (step s op)) = flags_step s (map signed (documents s)) op"
proof (cases op)
  case (Register user_data user_id hashed_password now)
  then show ?thesis by (simp add: flags_step_def register_def Let_def split: option.splits)
next
  case (CreateClinic clinic_data current_user clinic_id clinic_slug now)
  then show ?thesis by (simp add: flags_step_def create_clinic_def Let_def)
next
  case (GenerateDocument send_message request current_user doc_id now1 now2)
  then show ?thesis
    by (simp add: flags_step_def generate_document_def Let_def signed_def
          split: option.splits sum.splits)
next
  case (UpdateDocumentStatus doc_id status current_user now1 now2 now3)
  then show ?thesis
    using update_document_status_flags [of s doc_id status current_user now1 now2 now3]
    by (simp add: flags_step_def)
next
  case (AuditDocument send_message doc_id current_user audit_id now)
  then show ?thesis
    by (simp add: flags_step_def audit_document_endpoint_def Let_def
          split: option.splits sum.splits)
next
  case (CreateRisk risk_data current_user risk_id now1 now2)
  then show ?thesis by (simp add: flags_step_def create_risk_def Let_def)
next
  case (UploadDocument upload clinic_id category jurisdiction current_user extracted doc_id now1 now2)
  then show ?thesis
    by (simp add: flags_step_def upload_document_def Let_def signed_def split: sum.splits)
next
  case (SaveSettings key io_ok)
  then show ?thesis by (simp add: flags_step_def save_settings_def)
qed

lemma run_flags:
  "map signed (documents (run s ops)) = ever_published s (map signed (documents s)) ops"
proof (induction ops arbitrary: s)
  case Nil
  then show ?case by (simp add: run_def)
next
  case (Cons op ops)
  have "run s (op # ops) = run (step s op) ops" by (simp add: run_def)
  then show ?case using Cons [of "step s op"] by (simp add: step_flags)
qed

lemma flags_step_no_publish:
  "\<not> is_publish op \<Longrightarrow> list_all (\<lambda>b. \<not> b) bs \<Longrightarrow> list_all (\<lambda>b. \<not> b) (flags_step s bs op)"
  by (cases op) (auto simp: flags_step_def is_publish_def list_all_iff)

lemma ever_published_no_publish:
  "\<not> list_ex is_publish ops \<Longrightarrow> list_all (\<lambda>b. \<not> b) bs \<Longrightarrow>
   list_all (\<lambda>b. \<not> b) (ever_published s bs ops)"
proof (induction ops arbitrary: s bs)
  case Nil
  then show ?case by simp
next
  case (Cons op ops)
  then show ?case by (simp add: flags_step_no_publish)
qed

lemma never_published_unsigned:
  assumes "\<not> list_ex is_publish ops"
  shows "list_all unsigned (documents (run (empty_store key) ops))"
proof -
  have "list_all (\<lambda>b. \<not> b) (map signed (documents (run (empty_store key) ops)))"
    unfolding run_flags using assms
    by (intro ever_published_no_publish) (simp_all add: empty_store_def)
  then have ns: "\<forall>d \<in> set (documents (run (empty_store key) ops)). \<not> signed d"
    by (simp add: list_all_iff)
  have "list_all signature_ok (documents (empty_store key))" by (simp add: empty_store_def)
  then have "list_all signature_ok (documents (run (empty_store key) ops))"
    by (rule run_signature_ok)
  then have "\<forall>d \<in> set (documents (run (empty_store key) ops)). signed d \<or> unsigned d"
    by (simp add: list_all_iff signature_ok_def)
  with ns show ?thesis by (auto simp: list_all_iff)
qed

lemma created_documents_unsigned:
  "(generate_document s send_message request u doc_id now1 now2 = (Inr d, s') \<longrightarrow>
      documents s' = documents s @ [d] \<and> unsigned d \<and> d_status d = ''draft'') \<and>
   (upload_document s upload clinic_id category jurisdiction u extracted doc_id now1 now2 =
      (Inr r, s') \<longrightarrow>
      (\<exists>d. documents s' = documents s @ [d] \<and> unsigned d \<and> d_status d = ''draft''))"
  by (auto simp: generate_document_def upload_document_def Let_def unsigned_def DRAFT_def
        split: option.splits sum.splits if_splits)

lemma run_publish_then_draft:
  "documents (run (empty_store None) publish_then_draft) =
     [\<lparr>d_id = ''d1'', d_title = ''policy.txt'', d_content = ''C'', d_category = ''policy'',
       d_jurisdiction = ''NSW'', d_clinic_id = ''c1'', d_status = ''draft'', d_version = 1,
       d_tags = [''uploaded''], d_created_by = ''U'', d_created_at = (2024, 1, 1, 0, 0, 0, 0),
       d_updated_at = (2024, 1, 2, 0, 0, 0, 0),
       d_signature_hash = Some (create_document_hash ''C'' ''U'' (2024, 1, 1, 0, 0, 0, 2)),
       d_signed_by = Some ''U'', d_signed_at = Some (2024, 1, 1, 0, 0, 0, 3)\<rparr>]"
  by (simp add: run_def publish_then_draft_def empty_store_def upload_document_def
        update_document_status_def ex_file_def ex_user_def valid_statuses_def
        DRAFT_def REVIEW_def PUBLISHED_def ARCHIVED_def Let_def)

subsection \<open>Signature fields and status\<close>

text \<open>
  Claim C1 says that the signature fields are populated if and only if the status is
  published, and that they are null after a \<^verbatim>\<open>setStatus\<close> write to any other status.
  \<^verbatim>\<open>update_document_status\<close> puts the signature fields into \<^verbatim>\<open>update_data\<close> only
  when publishing, and \<^verbatim>\<open>$set\<close> leaves the fields it does not name: a document that
  is uploaded, published and set back to draft is a draft that still carries the digest,
  the signer and the sign-time of its publication.
\<close>

theorem stale_signature_counterexample:
  "d_status (hd (documents (run (empty_store None) publish_then_draft))) = ''draft'' \<and>
   d_signature_hash (hd (documents (run (empty_store None) publish_then_draft))) \<noteq> None \<and>
   d_signed_by (hd (documents (run (empty_store None) publish_then_draft))) = Some ''U'' \<and>
   d_signed_at (hd (documents (run (empty_store None) publish_then_draft))) =
     Some (2024, 1, 1, 0, 0, 0, 3)"
  by (simp add: run_publish_then_draft)

text \<open>
  Claim C1, amended. For every document and every sequence of requests from the empty
  store, the signature digest, signer and sign-time are populated if and only if some
  request of the sequence so far was a \<^verbatim>\<open>setStatus\<close> to published that found the
  document (\<open>ever_published\<close>), whatever its status is now; the three fields are populated
  together or not at all. So a published document is signed; a document is created unsigned
  (by generation or upload, as a draft); with no request to publish in the sequence every
  document is unsigned; a successful \<^verbatim>\<open>setStatus\<close> to published populates the fields
  (signer the actor, sign-time the clock reading); a successful \<^verbatim>\<open>setStatus\<close> to any
  other status leaves the signature fields of every document as they were, and a document
  whose signature fields are populated keeps them populated under every later request.
\<close>

theorem signature_fields_invariant:
  "signature_ok d =
     ((d_status d = ''published'' \<longrightarrow>
         d_signature_hash d \<noteq> None \<and> d_signed_by d \<noteq> None \<and> d_signed_at d \<noteq> None) \<and>
      (d_signature_hash d \<noteq> None \<and> d_signed_by d \<noteq> None \<and> d_signed_at d \<noteq> None \<or>
       d_signature_hash d = None \<and> d_signed_by d = None \<and> d_signed_at d = None)) \<and>
   (list_all signature_ok (documents s) \<longrightarrow> list_all signature_ok (documents (run s ops))) \<and>
   list_all signature_ok (documents (run (empty_store key) ops)) \<and>
   (i < length (documents s) \<and> signed (documents s ! i) \<longrightarrow>
      i < length (documents (run s ops)) \<and> signed (documents (run s ops) ! i)) \<and>
   (update_document_status s doc_id status u now1 now2 now3 = (Inr r, s') \<and>
    status \<noteq> ''published'' \<longrightarrow>
      map d_signature_hash (documents s') = map d_signature_hash (documents s) \<and>
      map d_signed_by (documents s') = map d_signed_by (documents s) \<and>
      map d_signed_at (documents s') = map d_signed_at (documents s)) \<and>
   (update_document_status s doc_id ''published'' u now1 now2 now3 = (Inr r, s') \<longrightarrow>
      (\<exists>doc'. find (\<lambda>d. d_id d = doc_id) (documents s') = Some doc' \<and>
         d_status doc' = ''published'' \<and> d_signature_hash doc' \<noteq> None \<and>
         d_signed_by doc' = Some (u_id u) \<and> d_signed_at doc' = Some now3)) \<and>
   (map signed (documents s) = bs \<longrightarrow>
      map signed (documents (run s ops)) = ever_published s bs ops) \<and>
   map signed (documents (run (empty_store key) ops)) = ever_published (empty_store key) [] ops \<and>
   (\<not> list_ex is_publish ops \<longrightarrow> list_all unsigned (documents (run (empty_store key) ops))) \<and>
   (generate_document s send_message request u gen_id now1 now2 = (Inr new_doc, s2) \<longrightarrow>
      documents s2 = documents s @ [new_doc] \<and> unsigned new_doc \<and>
      d_status new_doc = ''draft'') \<and>
   (upload_document s upload clinic_id category jurisdiction u extracted up_id now1 now2 =
      (Inr r2, s3) \<longrightarrow>
      (\<exists>new_doc. documents s3 = documents s @ [new_doc] \<and> unsigned new_doc \<and>
         d_status new_doc = ''draft''))"
proof (intro conjI impI)
  show "signature_ok d =
     ((d_status d = ''published'' \<longrightarrow>
         d_signature_hash d \<noteq> None \<and> d_signed_by d \<noteq> None \<and> d_signed_at d \<noteq> None) \<and>
      (d_signature_hash d \<noteq> None \<and> d_signed_by d \<noteq> None \<and> d_signed_at d \<noteq> None \<or>
       d_signature_hash d = None \<and> d_signed_by d = None \<and> d_signed_at d = None))"
    by (simp add: signature_ok_def signed_def unsigned_def PUBLISHED_def)
next
  assume "list_all signature_ok (documents s)"
  then show "list_all signature_ok (documents (run s ops))" by (rule run_signature_ok)
next
  have "list_all signature_ok (documents (empty_store key))" by (simp add: empty_store_def)
  then show "list_all signature_ok (documents (run (empty_store key) ops))"
    by (rule run_signature_ok)
next
  assume "i < length (documents s) \<and> signed (documents s ! i)"
  then show "i < length (documents (run s ops))" "signed (documents (run s ops) ! i)"
    using run_keeps_signed [of i s ops] by simp_all
next
  assume a: "update_document_status s doc_id status u now1 now2 now3 = (Inr r, s') \<and>
    status \<noteq> ''published''"
  then obtain f where s': "s' = s\<lparr>documents := update_one (\<lambda>d. d_id d = doc_id) f (documents s)\<rparr>"
    and p: "\<forall>d. d_signature_hash (f d) = d_signature_hash d \<and>
                 d_signed_by (f d) = d_signed_by d \<and> d_signed_at (f d) = d_signed_at d"
    using update_document_status_cases [of s doc_id status u now1 now2 now3 "Inr r" s']
    by (auto simp: PUBLISHED_def)
  show "map d_signature_hash (documents s') = map d_signature_hash (documents s)"
    unfolding s' using p by (simp add: map_update_one)
  show "map d_signed_by (documents s') = map d_signed_by (documents s)"
    unfolding s' using p by (simp add: map_update_one)
  show "map d_signed_at (documents s') = map d_signed_at (documents s)"
    unfolding s' using p by (simp add: map_update_one)
next
  assume a: "update_document_status s doc_id ''published'' u now1 now2 now3 = (Inr r, s')"
  then obtain f and doc :: document
    where fd: "find (\<lambda>d. d_id d = doc_id) (documents s) = Some doc"
    and s': "s' = s\<lparr>documents := update_one (\<lambda>d. d_id d = doc_id) f (documents s)\<rparr>"
    and p: "\<forall>d. fixed_fields (f d) = fixed_fields d \<and> d_status (f d) = ''published'' \<and>
                 d_signature_hash (f d) \<noteq> None \<and>
                 d_signed_by (f d) = Some (u_id u) \<and> d_signed_at (f d) = Some now3"
    using update_document_status_cases [of s doc_id "''published''" u now1 now2 now3 "Inr r" s']
    by (auto simp: PUBLISHED_def)
  have "d_id x = doc_id \<Longrightarrow> d_id (f x) = doc_id" for x
    using p [rule_format, of x] by (simp add: fixed_fields_def)
  then have "find (\<lambda>d. d_id d = doc_id) (documents s') = Some (f doc)"
    unfolding s' using fd by (simp add: find_update_one)
  with p show "\<exists>doc'. find (\<lambda>d. d_id d = doc_id) (documents s') = Some doc' \<and>
         d_status doc' = ''published'' \<and> d_signature_hash doc' \<noteq> None \<and>
         d_signed_by doc' = Some (u_id u) \<and> d_signed_at doc' = Some now3"
    by blast
next
  assume "map signed (documents s) = bs"
  then show "map signed (documents (run s ops)) = ever_published s bs ops"
    using run_flags [of s ops] by simp
next
  show "map signed (documents (run (empty_store key) ops)) =
      ever_published (empty_store key) [] ops"
    using run_flags [of "empty_store key" ops] by (simp add: empty_store_def)
next
  assume "\<not> list_ex is_publish ops"
  then show "list_all unsigned (documents (run (empty_store key) ops))"
    by (rule never_published_unsigned)
next
  assume g: "generate_document s send_message request u gen_id now1 now2 = (Inr new_doc, s2)"
  show "documents s2 = documents s @ [new_doc]" "unsigned new_doc" "d_status new_doc = ''draft''"
    using created_documents_unsigned [of s send_message request u gen_id now1 now2 new_doc s2] g
    by simp_all
next
  assume "upload_document s upload clinic_id category jurisdiction u extracted up_id now1 now2 =
      (Inr r2, s3)"
  then show "\<exists>new_doc. documents s3 = documents s @ [new_doc] \<and> unsigned new_doc \<and>
         d_status new_doc = ''draft''"
    using created_documents_unsigned [where s = s and upload = upload and clinic_id = clinic_id
        and category = category and jurisdiction = jurisdiction and u = u
        and extracted = extracted and doc_id = up_id and ?now1.0 = now1 and ?now2.0 = now2
        and r = r2 and s' = s3]
    by simp
qed

theorem signature_fields_invariant_witness:
  "list_all signature_ok (documents (empty_store None)) \<and>
   list_all signature_ok (documents (run (empty_store None) publish_then_draft)) \<and>
   map d_status (documents (run (empty_store None) publish_then_draft)) = [''draft''] \<and>
   map signed (documents (run (empty_store None) publish_then_draft)) = [True] \<and>
   ever_published (empty_store None) [] publish_then_draft = [True] \<and>
   map d_status (documents (run (empty_store None) (butlast publish_then_draft))) = [''published''] \<and>
   map signed (documents (run (empty_store None) (butlast publish_then_draft))) = [True] \<and>
   \<not> list_ex is_publish [hd publish_then_draft, last publish_then_draft] \<and>
   map d_status (documents (run (empty_store None)
      [hd publish_then_draft, last publish_then_draft])) = [''draft''] \<and>
   list_all unsigned (documents (run (empty_store None)
      [hd publish_then_draft, last publish_then_draft])) \<and>
   ever_published (empty_store None) [] [hd publish_then_draft, last publish_then_draft] = [False]"
proof -
  let ?no_publish = "[hd publish_then_draft, last publish_then_draft]"
  have e: "list_all signature_ok (documents (empty_store None))" by (simp add: empty_store_def)
  have a: "list_all signature_ok (documents (run (empty_store None) publish_then_draft))"
    by (rule signature_fields_invariant [where s = "empty_store None" and ops = publish_then_draft,
          THEN conjunct2, THEN conjunct1, THEN mp, OF e])
  have b: "map d_status (documents (run (empty_store None) (butlast publish_then_draft))) = [''published'']
    \<and> map signed (documents (run (empty_store None) (butlast publish_then_draft))) = [True]"
    by (simp add: run_def publish_then_draft_def empty_store_def upload_document_def
        update_document_status_def ex_file_def ex_user_def valid_statuses_def signed_def
        DRAFT_def REVIEW_def PUBLISHED_def ARCHIVED_def Let_def)
  have "map signed (documents (run (empty_store None) publish_then_draft)) =
      ever_published (empty_store None) [] publish_then_draft"
    by (rule signature_fields_invariant [where key = None and ops = publish_then_draft,
          THEN conjunct2, THEN conjunct2, THEN conjunct2, THEN conjunct2, THEN conjunct2, THEN conjunct2, THEN conjunct2, THEN conjunct1])
  then have c: "ever_published (empty_store None) [] publish_then_draft = [True]"
    by (simp add: run_publish_then_draft signed_def)
  have n: "\<not> list_ex is_publish ?no_publish"
    by (simp add: publish_then_draft_def is_publish_def PUBLISHED_def)
  have u: "list_all unsigned (documents (run (empty_store None) ?no_publish))"
    by (rule signature_fields_invariant [where key = None and ops = ?no_publish,
          THEN conjunct2, THEN conjunct2, THEN conjunct2, THEN conjunct2, THEN conjunct2, THEN conjunct2, THEN conjunct2, THEN conjunct2, THEN conjunct1, THEN mp, OF n])
  have st: "documents (run (empty_store None) ?no_publish) =
     [\<lparr>d_id = ''d1'', d_title = ''policy.txt'', d_content = ''C'', d_category = ''policy'',
       d_jurisdiction = ''NSW'', d_clinic_id = ''c1'', d_status = ''draft'', d_version = 1,
       d_tags = [''uploaded''], d_created_by = ''U'', d_created_at = (2024, 1, 1, 0, 0, 0, 0),
       d_updated_at = (2024, 1, 2, 0, 0, 0, 0),
       d_signature_hash = None, d_signed_by = None, d_signed_at = None\<rparr>]"
    by (simp add: run_def publish_then_draft_def empty_store_def upload_document_def
        update_document_status_def ex_file_def ex_user_def valid_statuses_def
        DRAFT_def REVIEW_def PUBLISHED_def ARCHIVED_def Let_def)
  have "map signed (documents (run (empty_store None) ?no_publish)) =
      ever_published (empty_store None) [] ?no_publish"
    by (rule signature_fields_invariant [where key = None and ops = ?no_publish,
          THEN conjunct2, THEN conjunct2, THEN conjunct2, THEN conjunct2, THEN conjunct2, THEN conjunct2, THEN conjunct2, THEN conjunct1])
  then have f: "ever_published (empty_store None) [] ?no_publish = [False]"
    unfolding st by (simp add: signed_def)
  have d: "map d_status (documents (run (empty_store None) ?no_publish)) = [''draft'']"
    unfolding st by simp
  show ?thesis using e a b c n u d f by (simp add: run_publish_then_draft signed_def)
qed

subsection \<open>The frame of a status write\<close>

text \<open>
  Claim C8. A successful \<^verbatim>\<open>setStatus\<close> changes nothing but the status and
  \<^verbatim>\<open>updated_at\<close> of the document it finds, and its signature fields when the target is
  published: identifier, title, content, category, jurisdiction, clinic, version, tags,
  creator and creation time of every document are kept, documents with another identifier
  are kept whole, and so are the other collections. Over any sequence of requests the
  documents already stored keep these fields (new documents are appended after them).
\<close>

theorem update_document_status_frame:
  "(update_document_status s doc_id status u now1 now2 now3 = (Inr r, s') \<longrightarrow>
      map fixed_fields (documents s') = map fixed_fields (documents s) \<and>
      (status \<noteq> ''published'' \<longrightarrow>
         map d_signature_hash (documents s') = map d_signature_hash (documents s) \<and>
         map d_signed_by (documents s') = map d_signed_by (documents s) \<and>
         map d_signed_at (documents s') = map d_signed_at (documents s)) \<and>
      (\<forall>i. i < length (documents s) \<and> d_id (documents s ! i) \<noteq> doc_id \<longrightarrow>
           documents s' ! i = documents s ! i) \<and>
      users s' = users s \<and> clinics s' = clinics s \<and> risks s' = risks s \<and>
      audits s' = audits s \<and> OPENAI_API_KEY s' = OPENAI_API_KEY s) \<and>
   length (documents s) \<le> length (documents (run s ops)) \<and>
   take (length (documents s)) (map fixed_fields (documents (run s ops))) =
     map fixed_fields (documents s)"
proof (intro conjI impI)
  assume a: "update_document_status s doc_id status u now1 now2 now3 = (Inr r, s')"
  then obtain f where s': "s' = s\<lparr>documents := update_one (\<lambda>d. d_id d = doc_id) f (documents s)\<rparr>"
    and p: "\<forall>d. fixed_fields (f d) = fixed_fields d \<and>
             (if status = PUBLISHED then True
              else d_signature_hash (f d) = d_signature_hash d \<and>
                   d_signed_by (f d) = d_signed_by d \<and> d_signed_at (f d) = d_signed_at d)"
    using update_document_status_cases [of s doc_id status u now1 now2 now3 "Inr r" s']
    by auto
  show "map fixed_fields (documents s') = map fixed_fields (documents s)"
    unfolding s' using p by (simp add: map_update_one)
  show "\<forall>i. i < length (documents s) \<and> d_id (documents s ! i) \<noteq> doc_id \<longrightarrow>
           documents s' ! i = documents s ! i"
    unfolding s' by (simp add: nth_update_one_other)
  show "users s' = users s" "clinics s' = clinics s" "risks s' = risks s"
    "audits s' = audits s" "OPENAI_API_KEY s' = OPENAI_API_KEY s"
    unfolding s' by simp_all
  assume "status \<noteq> ''published''"
  then have q: "\<forall>d. d_signature_hash (f d) = d_signature_hash d \<and>
                   d_signed_by (f d) = d_signed_by d \<and> d_signed_at (f d) = d_signed_at d"
    using p by (simp add: PUBLISHED_def)
  show "map d_signature_hash (documents s') = map d_signature_hash (documents s)"
    unfolding s' using q by (simp add: map_update_one)
  show "map d_signed_by (documents s') = map d_signed_by (documents s)"
    unfolding s' using q by (simp add: map_update_one)
  show "map d_signed_at (documents s') = map d_signed_at (documents s)"
    unfolding s' using q by (simp add: map_update_one)
next
  show "length (documents s) \<le> length (documents (run s ops))"
    using run_fixed_fields [of s ops] by simp
  show "take (length (documents s)) (map fixed_fields (documents (run s ops))) =
     map fixed_fields (documents s)"
    using run_fixed_fields [of s ops] by simp
qed

theorem update_document_status_frame_witness:
  "update_document_status (store_with_docs [ex_doc, ex_doc\<lparr>d_id := ''d2''\<rparr>]) ''d2'' ''review'' ex_user
       (2024, 1, 1, 0, 0, 0, 1) (2024, 1, 1, 0, 0, 0, 2) (2024, 1, 1, 0, 0, 0, 3) =
     (Inr (''Document status updated'', ''review''),
      store_with_docs [ex_doc, ex_doc\<lparr>d_id := ''d2'', d_status := ''review'',
                                     d_updated_at := (2024, 1, 1, 0, 0, 0, 1)\<rparr>]) \<and>
   map fixed_fields (documents (store_with_docs [ex_doc, ex_doc\<lparr>d_id := ''d2'', d_status := ''review'',
                                     d_updated_at := (2024, 1, 1, 0, 0, 0, 1)\<rparr>])) =
     map fixed_fields (documents (store_with_docs [ex_doc, ex_doc\<lparr>d_id := ''d2''\<rparr>])) \<and>
   take 1 (map fixed_fields (documents (run (store_with_docs [ex_doc]) (tl publish_then_draft)))) =
     [fixed_fields ex_doc] \<and>
   map d_status (documents (run (store_with_docs [ex_doc]) (tl publish_then_draft))) = [''draft'']"
proof -
  let ?S = "store_with_docs [ex_doc, ex_doc\<lparr>d_id := ''d2''\<rparr>]"
  let ?S' = "store_with_docs [ex_doc, ex_doc\<lparr>d_id := ''d2'', d_status := ''review'',
                                     d_updated_at := (2024, 1, 1, 0, 0, 0, 1)\<rparr>]"
  have a: "update_document_status ?S ''d2'' ''review'' ex_user
       (2024, 1, 1, 0, 0, 0, 1) (2024, 1, 1, 0, 0, 0, 2) (2024, 1, 1, 0, 0, 0, 3) =
     (Inr (''Document status updated'', ''review''), ?S')"
    by (simp add: update_document_status_def store_with_docs_def empty_store_def ex_doc_def
        valid_statuses_def DRAFT_def REVIEW_def PUBLISHED_def ARCHIVED_def)
  have b: "map fixed_fields (documents ?S') = map fixed_fields (documents ?S)"
    using update_document_status_frame [where s = ?S and s' = ?S' and doc_id = "''d2''"
        and status = "''review''" and u = ex_user and ?now1.0 = "(2024, 1, 1, 0, 0, 0, 1)"
        and ?now2.0 = "(2024, 1, 1, 0, 0, 0, 2)" and ?now3.0 = "(2024, 1, 1, 0, 0, 0, 3)"
        and r = "(''Document status updated'', ''review'')"] a
    by blast
  have c: "take (length (documents (store_with_docs [ex_doc])))
      (map fixed_fields (documents (run (store_with_docs [ex_doc]) (tl publish_then_draft)))) =
      map fixed_fields (documents (store_with_docs [ex_doc]))"
    using update_document_status_frame [where s = "store_with_docs [ex_doc]"
        and ops = "tl publish_then_draft"] by blast
  have d: "map d_status (documents (run (store_with_docs [ex_doc]) (tl publish_then_draft))) = [''draft'']"
    by (simp add: run_def publish_then_draft_def store_with_docs_def empty_store_def
        upload_document_def update_document_status_def ex_file_def ex_user_def ex_doc_def
        valid_statuses_def DRAFT_def REVIEW_def PUBLISHED_def ARCHIVED_def Let_def)
  show ?thesis using a b c d by (simp add: store_with_docs_def empty_store_def)
qed

section \<open>The title of a generated document\<close>

subsection \<open>The search finds the first heading line\<close>

lemma match_here_no_hash:
  "s = [] \<or> hd s \<noteq> CHR ''#'' \<Longrightarrow> match_here s = None"
  by (cases s) (auto simp: match_here_def)

lemma search_from_False:
  "search_from False s =
     (case dropWhile (\<lambda>c. c \<noteq> NL) s of [] \<Rightarrow> None | c # r \<Rightarrow> search_from True r)"
  by (induction s) auto

lemma split_lines_unfold:
  "split_lines s = takeWhile (\<lambda>c. c \<noteq> NL) s #
     (case dropWhile (\<lambda>c. c \<noteq> NL) s of [] \<Rightarrow> [] | c # r \<Rightarrow> split_lines r)"
  by (induction s) (auto split: list.splits)

lemma search_from_skip_line:
  assumes "\<not> is_heading_line (takeWhile (\<lambda>c. c \<noteq> NL) s)"
  shows "search_from True s =
     (case dropWhile (\<lambda>c. c \<noteq> NL) s of [] \<Rightarrow> None | c # r \<Rightarrow> search_from True r)"
proof (cases s)
  case Nil
  then show ?thesis by simp
next
  case (Cons c cs)
  have nh: "c \<noteq> CHR ''#''"
    using assms Cons by (auto simp: is_heading_line_def NL_def split: if_splits)
  then have "match_here (c # cs) = None" by (simp add: match_here_no_hash)
  then have "search_from True s = search_from (c = NL) cs" using Cons by simp
  then show ?thesis using Cons by (cases "c = NL") (simp_all add: search_from_False)
qed

lemma try_ws_found: "group_at (drop w s) = Some g \<Longrightarrow> try_ws w s = Some g"
  by (cases w) simp_all

lemma takeWhile_dropWhile_same: "takeWhile P (dropWhile P xs) = []"
  by (induction xs) auto

lemma dropWhile_append_stop:
  "\<not> P y \<Longrightarrow> dropWhile P (xs @ y # ys) = dropWhile P xs @ y # ys"
  by (induction xs) auto

lemma match_here_heading:
  assumes h: "is_heading_line (takeWhile (\<lambda>c. c \<noteq> NL) s)"
    and t: "spec_heading_text (takeWhile (\<lambda>c. c \<noteq> NL) s) \<noteq> []"
  shows "match_here s = Some (spec_heading_text (takeWhile (\<lambda>c. c \<noteq> NL) s))"
proof -
  define l where "l = takeWhile (\<lambda>c. c \<noteq> NL) s"
  define r where "r = dropWhile (\<lambda>c. c \<noteq> NL) s"
  define a where "a = dropWhile (\<lambda>c. c = CHR ''#'') l"
  define ht where "ht = dropWhile is_space a"
  have s: "s = l @ r" by (simp add: l_def r_def)
  have ht: "ht = spec_heading_text l" by (simp add: ht_def a_def spec_heading_text_def)
  have ht_ne: "ht \<noteq> []" using t by (simp add: ht l_def)
  then have a_ne: "a \<noteq> []" by (auto simp: ht_def)
  have no_nl: "\<forall>c \<in> set l. c \<noteq> NL" unfolding l_def by (auto dest: set_takeWhileD)
  obtain x a' where a: "a = x # a'" using a_ne by (cases a) auto
  have xl: "l = takeWhile (\<lambda>c. c = CHR ''#'') l @ x # a' \<and> x \<noteq> CHR ''#''"
    using a unfolding a_def by (simp add: dropWhile_eq_Cons_conv)
  then have x: "x \<noteq> CHR ''#''" and l_split: "l = takeWhile (\<lambda>c. c = CHR ''#'') l @ x # a'"
    by simp_all
  have tw: "takeWhile (\<lambda>c. c = CHR ''#'') s = takeWhile (\<lambda>c. c = CHR ''#'') l"
  proof -
    have "x \<in> set l" using l_split by (metis in_set_conv_decomp)
    then show ?thesis unfolding s using x by simp
  qed
  have dw: "dropWhile (\<lambda>c. c = CHR ''#'') s = a @ r"
  proof -
    have "x \<in> set l" using l_split by (metis in_set_conv_decomp)
    then show ?thesis unfolding s a_def using x by simp
  qed
  obtain y ht' where hty: "ht = y # ht'" using ht_ne by (cases ht) auto
  have ya: "a = takeWhile is_space a @ y # ht' \<and> \<not> is_space y"
    using hty unfolding ht_def by (simp add: dropWhile_eq_Cons_conv)
  then have y: "\<not> is_space y" and a_split: "a = takeWhile is_space a @ y # ht'"
    by simp_all
  have dws: "dropWhile is_space (a @ r) = ht @ r"
  proof -
    have "y \<in> set a" using a_split by (metis in_set_conv_decomp)
    then show ?thesis unfolding ht_def using y by simp
  qed
  have ht_sub: "set ht \<subseteq> set l"
    unfolding ht_def a_def by (meson set_dropWhileD subsetI)
  have g: "group_at (ht @ r) = Some ht"
  proof -
    have "takeWhile (\<lambda>c. c \<noteq> NL) (ht @ r) = ht @ takeWhile (\<lambda>c. c \<noteq> NL) r"
      using ht_sub no_nl by (intro takeWhile_append2) auto
    also have "\<dots> = ht" by (simp add: r_def takeWhile_dropWhile_same)
    finally show ?thesis using ht_ne by (simp add: group_at_def)
  qed
  have hashes: "takeWhile (\<lambda>c. c = CHR ''#'') s \<noteq> []"
    using h unfolding tw l_def [symmetric] by (cases l) (auto simp: is_heading_line_def)
  then obtain n where n: "length (takeWhile (\<lambda>c. c = CHR ''#'') s) = Suc n"
    by (cases "takeWhile (\<lambda>c. c = CHR ''#'') s") auto
  have rest: "drop (Suc n) s = a @ r"
    using dw n by (metis dropWhile_eq_drop)
  have "drop (length (takeWhile is_space (a @ r))) (a @ r) = ht @ r"
    using dws by (metis dropWhile_eq_drop)
  then have "try_ws (length (takeWhile is_space (a @ r))) (a @ r) = Some ht"
    using g by (simp add: try_ws_found)
  then have "try_hashes (Suc n) s = Some ht" by (simp add: rest)
  then show ?thesis unfolding match_here_def n ht l_def by simp
qed

lemma search_from_heading:
  assumes "is_heading_line (takeWhile (\<lambda>c. c \<noteq> NL) s)"
    and "spec_heading_text (takeWhile (\<lambda>c. c \<noteq> NL) s) \<noteq> []"
  shows "search_from True s = Some (spec_heading_text (takeWhile (\<lambda>c. c \<noteq> NL) s))"
proof (cases s)
  case Nil
  with assms show ?thesis by (simp add: is_heading_line_def)
next
  case (Cons c cs)
  with match_here_heading [OF assms] show ?thesis by simp
qed

lemma search_from_first_heading:
  "(spec_first_heading_line s = None \<longrightarrow> search_from True s = None) \<and>
   (\<forall>l. spec_first_heading_line s = Some l \<and> spec_heading_text l \<noteq> [] \<longrightarrow>
        search_from True s = Some (spec_heading_text l))"
proof (induction s rule: length_induct)
  case (1 s)
  define l0 where "l0 = takeWhile (\<lambda>c. c \<noteq> NL) s"
  define r where "r = dropWhile (\<lambda>c. c \<noteq> NL) s"
  have lines: "split_lines s = l0 # (case r of [] \<Rightarrow> [] | c # r' \<Rightarrow> split_lines r')"
    unfolding l0_def r_def by (rule split_lines_unfold)
  show ?case
  proof (cases "is_heading_line l0")
    case True
    then have "spec_first_heading_line s = Some l0"
      by (simp add: spec_first_heading_line_def lines)
    then show ?thesis
      using search_from_heading [of s] True unfolding l0_def by auto
  next
    case False
    have skip: "search_from True s = (case r of [] \<Rightarrow> None | c # r' \<Rightarrow> search_from True r')"
      using False unfolding l0_def r_def by (rule search_from_skip_line)
    show ?thesis
    proof (cases r)
      case Nil
      then have "spec_first_heading_line s = None"
        using False by (simp add: spec_first_heading_line_def lines)
      with skip Nil show ?thesis by simp
    next
      case (Cons c r')
      have "length r' < length s"
        using Cons length_dropWhile_le [of "\<lambda>c. c \<noteq> NL" s] unfolding r_def [symmetric] by simp
      with 1 have IH: "(spec_first_heading_line r' = None \<longrightarrow> search_from True r' = None) \<and>
        (\<forall>l. spec_first_heading_line r' = Some l \<and> spec_heading_text l \<noteq> [] \<longrightarrow>
        search_from True r' = Some (spec_heading_text l))" by blast
      have "spec_first_heading_line s = spec_first_heading_line r'"
        using False Cons by (simp add: spec_first_heading_line_def lines)
      moreover have "search_from True s = search_from True r'" using skip Cons by simp
      ultimately show ?thesis using IH by simp
    qed
  qed
qed

lemma not_space_dot: "\<not> is_space (CHR ''.'')"
  by (simp add: is_space_def)

lemma not_marker_dot: "\<not> is_marker (CHR ''.'')"
  by (simp add: is_marker_def)

lemma strip_ellipsis: "strip (xs @ ''...'') = dropWhile is_space xs @ ''...''"
proof -
  have "dropWhile is_space (xs @ ''...'') = dropWhile is_space xs @ ''...''"
    using not_space_dot by (simp add: dropWhile_append_stop)
  then show ?thesis using not_space_dot by (simp add: strip_def)
qed

lemma fallback_title:
  assumes "search_from True s = None" and "100 < length (first_sentence s)"
  shows "extract_title s = dropWhile is_space (remove_markers (take 100 (first_sentence s))) @ ''...''"
proof -
  have "remove_markers (take 100 (first_sentence s) @ ''...'') =
      remove_markers (take 100 (first_sentence s)) @ ''...''"
    using not_marker_dot by (simp add: remove_markers_def)
  then show ?thesis using assms by (simp add: extract_title_def strip_ellipsis)
qed


lemma take_takeWhile_prefix:
  "n \<le> length (takeWhile P xs) \<Longrightarrow> take n (takeWhile P xs) = take n xs"
proof -
  assume n: "n \<le> length (takeWhile P xs)"
  have "take n xs = take n (takeWhile P xs @ dropWhile P xs)" by simp
  also have "\<dots> = take n (takeWhile P xs)" using n by (simp del: takeWhile_dropWhile_id)
  finally show ?thesis by simp
qed

lemma cold_chain_title: "extract_title cold_chain_text = ''Cold Chain Policy''"
  by code_simp

lemma cold_chain_heading:
  "spec_first_heading_line cold_chain_text = Some ''# Cold Chain Policy'' \<and>
   spec_heading_text ''# Cold Chain Policy'' = ''Cold Chain Policy''"
  by code_simp

lemma plain_sentence_facts:
  "spec_first_heading_line plain_sentence = None \<and> length (first_sentence plain_sentence) = 101 \<and>
   list_all (\<lambda>c. \<not> is_marker c) (take 100 (first_sentence plain_sentence)) \<and>
   \<not> is_space (hd plain_sentence) \<and> take 100 plain_sentence = replicate 100 (CHR ''a'')"
  by code_simp

text \<open>
  A heading line with no text: \<^verbatim>\<open>\s*\<close> runs over the newline and the group is taken
  from the next line.
\<close>

lemma empty_heading_takes_next_line:
  "spec_first_heading_line (''#'' @ [NL] @ ''Body'') = Some ''#'' \<and>
   spec_heading_text ''#'' = [] \<and>
   extract_title (''#'' @ [NL] @ ''Body'') = ''Body''"
  by code_simp

text \<open>
  Claim C6 says that with no heading and a first sentence of more than 100 characters the
  title is exactly 100 characters plus an ellipsis. The markers are removed and the
  whitespace stripped after the truncation, from both kinds of title: a first sentence of a
  star and 100 letters gives 99 letters plus the ellipsis.
\<close>

theorem starred_sentence_counterexample:
  "spec_first_heading_line starred_sentence = None \<and>
   search_from True starred_sentence = None \<and>
   length (first_sentence starred_sentence) = 101 \<and>
   extract_title starred_sentence = replicate 99 (CHR ''a'') @ ''...'' \<and>
   length (extract_title starred_sentence) = 102"
  by code_simp

text \<open>
  Claim C6, amended. When the generated text has a line that begins with a hash sign and
  the first such line has text after its hash signs and whitespace, the title is that text,
  stripped, with the characters \<^verbatim>\<open>#\<close>, \<^verbatim>\<open>*\<close>, \<^verbatim>\<open>_\<close> and the backtick removed,
  and stripped again. When no line begins with a hash sign and the first sentence (the text
  before the first full stop) has more than 100 characters, the title is its first 100
  characters without those markers and without leading whitespace, followed by an ellipsis:
  at most 100 characters plus the ellipsis, and exactly the first 100 characters plus the
  ellipsis when none of them is a marker and the text does not begin with whitespace. With
  no such line and a shorter first sentence the title is that sentence, markers removed,
  stripped. The text \<^verbatim>\<open>"# Cold Chain Policy\nBody..."\<close> yields
  \<^verbatim>\<open>"Cold Chain Policy"\<close>.
\<close>

theorem extract_title_cases:
  "(spec_first_heading_line s = Some l \<and> spec_heading_text l \<noteq> [] \<longrightarrow>
      extract_title s = strip (remove_markers (strip (spec_heading_text l)))) \<and>
   (spec_first_heading_line s = None \<and> 100 < length (first_sentence s) \<longrightarrow>
      extract_title s =
        dropWhile is_space (remove_markers (take 100 (first_sentence s))) @ ''...'' \<and>
      length (extract_title s) \<le> 103 \<and>
      (list_all (\<lambda>c. \<not> is_marker c) (take 100 (first_sentence s)) \<and> \<not> is_space (hd s) \<longrightarrow>
         extract_title s = take 100 s @ ''...'' \<and> length (extract_title s) = 103)) \<and>
   (spec_first_heading_line s = None \<and> length (first_sentence s) \<le> 100 \<longrightarrow>
      extract_title s = strip (remove_markers (first_sentence s))) \<and>
   extract_title (''# Cold Chain Policy'' @ [NL] @ ''Body...'') = ''Cold Chain Policy''"
proof (intro conjI impI)
  assume "spec_first_heading_line s = Some l \<and> spec_heading_text l \<noteq> []"
  then have "search_from True s = Some (spec_heading_text l)"
    using search_from_first_heading [of s] by blast
  then show "extract_title s = strip (remove_markers (strip (spec_heading_text l)))"
    by (simp add: extract_title_def)
next
  assume a: "spec_first_heading_line s = None \<and> 100 < length (first_sentence s)"
  then have none: "search_from True s = None"
    using search_from_first_heading [of s] by blast
  with a show t: "extract_title s =
      dropWhile is_space (remove_markers (take 100 (first_sentence s))) @ ''...''"
    by (simp add: fallback_title)
  have "length (dropWhile is_space (remove_markers (take 100 (first_sentence s)))) \<le>
      length (remove_markers (take 100 (first_sentence s)))"
    by (rule length_dropWhile_le)
  also have "\<dots> \<le> length (take 100 (first_sentence s))"
    unfolding remove_markers_def by (rule length_filter_le)
  also have "\<dots> \<le> 100" by simp
  finally show "length (extract_title s) \<le> 103" unfolding t by simp
  assume b: "list_all (\<lambda>c. \<not> is_marker c) (take 100 (first_sentence s)) \<and> \<not> is_space (hd s)"
  have tk: "take 100 (first_sentence s) = take 100 s"
    using a unfolding first_sentence_def by (intro take_takeWhile_prefix) simp
  have rm: "remove_markers (take 100 s) = take 100 s"
    using b unfolding tk remove_markers_def by (simp add: list_all_iff)
  have "length s \<ge> length (first_sentence s)"
    unfolding first_sentence_def by (rule length_takeWhile_le)
  with a have len: "100 < length s" by simp
  then obtain c cs where s: "s = c # cs" by (cases s) auto
  with b have "dropWhile is_space (take 100 s) = take 100 s" by simp
  with t tk rm show e: "extract_title s = take 100 s @ ''...''" by simp
  show "length (extract_title s) = 103" unfolding e using len by simp
next
  assume a: "spec_first_heading_line s = None \<and> length (first_sentence s) \<le> 100"
  then have "search_from True s = None"
    using search_from_first_heading [of s] by blast
  with a show "extract_title s = strip (remove_markers (first_sentence s))"
    by (simp add: extract_title_def)
next
  show "extract_title (''# Cold Chain Policy'' @ [NL] @ ''Body...'') = ''Cold Chain Policy''"
    using cold_chain_title by (simp add: cold_chain_text_def)
qed

theorem extract_title_cases_witness:
  "spec_first_heading_line cold_chain_text = Some ''# Cold Chain Policy'' \<and>
   spec_heading_text ''# Cold Chain Policy'' = ''Cold Chain Policy'' \<and>
   extract_title cold_chain_text = ''Cold Chain Policy'' \<and>
   spec_first_heading_line plain_sentence = None \<and>
   length (first_sentence plain_sentence) = 101 \<and>
   extract_title plain_sentence = replicate 100 (CHR ''a'') @ ''...'' \<and>
   length (extract_title plain_sentence) = 103"
proof -
  have h: "spec_first_heading_line cold_chain_text = Some ''# Cold Chain Policy'' \<and>
      spec_heading_text ''# Cold Chain Policy'' \<noteq> []"
    using cold_chain_heading by simp
  have "extract_title cold_chain_text =
      strip (remove_markers (strip (spec_heading_text ''# Cold Chain Policy'')))"
    using extract_title_cases [where s = cold_chain_text and l = "''# Cold Chain Policy''"] h
    by blast
  also have "\<dots> = ''Cold Chain Policy''" by code_simp
  finally have a: "extract_title cold_chain_text = ''Cold Chain Policy''" .
  have p: "spec_first_heading_line plain_sentence = None \<and> 100 < length (first_sentence plain_sentence)"
    using plain_sentence_facts by simp
  have q: "list_all (\<lambda>c. \<not> is_marker c) (take 100 (first_sentence plain_sentence)) \<and>
      \<not> is_space (hd plain_sentence)"
    using plain_sentence_facts by simp
  have "extract_title plain_sentence = take 100 plain_sentence @ ''...'' \<and>
      length (extract_title plain_sentence) = 103"
    using extract_title_cases [where s = plain_sentence] p q by blast
  then have b: "extract_title plain_sentence = replicate 100 (CHR ''a'') @ ''...'' \<and>
      length (extract_title plain_sentence) = 103"
    using plain_sentence_facts by simp
  show ?thesis using cold_chain_heading a plain_sentence_facts b by simp
qed

section \<open>The signature digest of a published document\<close>

text \<open>The model of SHA-256 on the test vector of the standard.\<close>

lemma sha256_abc:
  "sha256_hexdigest (encode ''abc'') =
     ''ba7816bf8f01cfea414140de5dae2223b00361a396177a9cb410ff61f20015ad''"
  by code_simp

text \<open>
  What publishing stores: the digest is computed over the content, the actor and the
  second clock reading of the call; the stored \<^verbatim>\<open>signed_at\<close> is the third.
\<close>

lemma publish_signature_fields:
  assumes "update_document_status s doc_id ''published'' u now1 now2 now3 = (Inr r, s')"
  shows "\<exists>doc doc'. find (\<lambda>d. d_id d = doc_id) (documents s) = Some doc \<and>
     find (\<lambda>d. d_id d = doc_id) (documents s') = Some doc' \<and>
     d_content doc' = d_content doc \<and>
     d_signature_hash doc' = Some (create_document_hash (d_content doc) (u_id u) now2) \<and>
     d_signed_by doc' = Some (u_id u) \<and> d_signed_at doc' = Some now3"
proof -
  from assms obtain f and doc :: document
    where fd: "find (\<lambda>d. d_id d = doc_id) (documents s) = Some doc"
    and s': "s' = s\<lparr>documents := update_one (\<lambda>d. d_id d = doc_id) f (documents s)\<rparr>"
    and p: "\<forall>d. fixed_fields (f d) = fixed_fields d \<and>
                 d_signature_hash (f d) = Some (create_document_hash (d_content doc) (u_id u) now2) \<and>
                 d_signed_by (f d) = Some (u_id u) \<and> d_signed_at (f d) = Some now3"
    using update_document_status_cases [of s doc_id "''published''" u now1 now2 now3 "Inr r" s']
    by (auto simp: PUBLISHED_def)
  have ff: "d_id (f x) = d_id x \<and> d_content (f x) = d_content x" for x
    using p [rule_format, of x] by (simp add: fixed_fields_def)
  then have "find (\<lambda>d. d_id d = doc_id) (documents s') = Some (f doc)"
    unfolding s' using fd by (simp add: find_update_one)
  with fd p ff show ?thesis by auto
qed

lemma digest_at_second_reading:
  "create_document_hash ''C'' ''U'' (2024, 1, 1, 0, 0, 0, 2) =
     ''55047b4922a650c8a9428b3f951b8515a083f02a846e0aa52e7657ea4b0bf641''"
  by code_simp

lemma digest_at_third_reading:
  "create_document_hash ''C'' ''U'' (2024, 1, 1, 0, 0, 0, 3) =
     ''452f01a8f14eeff1946afc2ebb736ada004ddf36bde343b0a7df0003842f176b''"
  by code_simp

lemma run_publish:
  "documents (run (empty_store None) (butlast publish_then_draft)) =
     [\<lparr>d_id = ''d1'', d_title = ''policy.txt'', d_content = ''C'', d_category = ''policy'',
       d_jurisdiction = ''NSW'', d_clinic_id = ''c1'', d_status = ''published'', d_version = 1,
       d_tags = [''uploaded''], d_created_by = ''U'', d_created_at = (2024, 1, 1, 0, 0, 0, 0),
       d_updated_at = (2024, 1, 1, 0, 0, 0, 1),
       d_signature_hash = Some (create_document_hash ''C'' ''U'' (2024, 1, 1, 0, 0, 0, 2)),
       d_signed_by = Some ''U'', d_signed_at = Some (2024, 1, 1, 0, 0, 0, 3)\<rparr>]"
  by (simp add: run_def publish_then_draft_def empty_store_def upload_document_def
        update_document_status_def ex_file_def ex_user_def valid_statuses_def
        DRAFT_def REVIEW_def PUBLISHED_def ARCHIVED_def Let_def)

text \<open>
  Claim C2 says that the stored digest is reproduced by hashing the content, the actor's
  identifier and the stored \<^verbatim>\<open>signed_at\<close>. \<^verbatim>\<open>update_document_status\<close> calls
  \<^verbatim>\<open>datetime.utcnow()\<close> once for the timestamp it hashes and once more for the
  \<^verbatim>\<open>signed_at\<close> it stores; the hashed timestamp is stored nowhere. With clock readings
  one microsecond apart, a document of content \<^verbatim>\<open>C\<close> published by user \<^verbatim>\<open>U\<close> is
  stored with the digest of the second reading and the \<^verbatim>\<open>signed_at\<close> of the third, and
  hashing content, user and the stored \<^verbatim>\<open>signed_at\<close> gives another digest.
\<close>

theorem published_digest_differs_from_recomputed:
  "map d_content (documents (run (empty_store None) (butlast publish_then_draft))) = [''C''] \<and>
   map d_signed_by (documents (run (empty_store None) (butlast publish_then_draft))) = [Some ''U''] \<and>
   map d_signed_at (documents (run (empty_store None) (butlast publish_then_draft))) =
     [Some (2024, 1, 1, 0, 0, 0, 3)] \<and>
   map d_signature_hash (documents (run (empty_store None) (butlast publish_then_draft))) =
     [Some ''55047b4922a650c8a9428b3f951b8515a083f02a846e0aa52e7657ea4b0bf641''] \<and>
   create_document_hash ''C'' ''U'' (2024, 1, 1, 0, 0, 0, 3) =
     ''452f01a8f14eeff1946afc2ebb736ada004ddf36bde343b0a7df0003842f176b''"
  unfolding run_publish using digest_at_second_reading digest_at_third_reading
  by (simp del: One_nat_def)

end
